theory Spec2Isabelle
  imports Complex_Main "HOL-Library.Sublist"
begin

unbundle bit_operations_syntax

section \<open>Python values of the PPE monitor\<close>

text \<open>
  The program is one Python module, \<^verbatim>\<open>main.py\<close>: a detection loop (\<^verbatim>\<open>cv_loop\<close>) that
  publishes a status dictionary and the latest annotated frame, and an HTTP handler
  (\<^verbatim>\<open>DashboardHandler\<close>) that serves both.  Byte strings and text are lists of
  characters; a clock reading (\<^verbatim>\<open>time.time()\<close>) and a sleep duration are real numbers.
\<close>

type_synonym bytes = string

type_synonym frame = bytes

datatype pyval = PInt int | PFloat real

text \<open>
  A Python \<^verbatim>\<open>dict\<close> keeps its keys in insertion order, and \<^verbatim>\<open>json.dumps\<close> writes them
  in that order, so a dictionary is an association list.  \<^verbatim>\<open>d[k] = v\<close> replaces the
  value of a key that is there and appends a new key at the end; \<^verbatim>\<open>d.update(other)\<close>
  stores the items of \<^verbatim>\<open>other\<close> one by one.
\<close>

type_synonym dict = "(string \<times> pyval) list"

definition dict_get :: "dict \<Rightarrow> string \<Rightarrow> pyval option" where
  "dict_get d k = map_of d k"

definition dict_keys :: "dict \<Rightarrow> string list" where
  "dict_keys d = map fst d"

fun dict_set :: "string \<Rightarrow> pyval \<Rightarrow> dict \<Rightarrow> dict" where
  "dict_set k v [] = [(k, v)]"
| "dict_set k v ((k', v') # d) =
     (if k' = k then (k', v) # d else (k', v') # dict_set k v d)"

definition dict_update :: "dict \<Rightarrow> dict \<Rightarrow> dict" where
  "dict_update d other = fold (\<lambda>(k, v). dict_set k v) other d"

text \<open>Python's \<^verbatim>\<open>sub in s\<close> on strings: \<^verbatim>\<open>sub\<close> occurs in \<^verbatim>\<open>s\<close> as a contiguous run.\<close>

fun startswith :: "string \<Rightarrow> string \<Rightarrow> bool" where
  "startswith s [] = True"
| "startswith [] (p # ps) = False"
| "startswith (c # cs) (p # ps) = (c = p \<and> startswith cs ps)"

fun str_in :: "string \<Rightarrow> string \<Rightarrow> bool" where
  "str_in sub [] = (sub = [])"
| "str_in sub (c # cs) = (startswith (c # cs) sub \<or> str_in sub cs)"

text \<open>
  The exceptions of the model: a failed lookup, a failed socket write, and an error
  raised by OpenCV (\<^verbatim>\<open>cv2.error\<close>), the last two with their text.
\<close>

datatype exc = KeyError int | OSError string | CvError string

section \<open>Status derivation (\<^verbatim>\<open>cv_loop\<close>, step 4.1)\<close>

text \<open>
  A detection result is the list \<^verbatim>\<open>results[0].boxes\<close>; a box is represented by its
  class index \<^verbatim>\<open>int(box.cls[0])\<close>, and \<^verbatim>\<open>model.names\<close> maps a class index to its label.
  \<^verbatim>\<open>model.names[cls]\<close> raises \<^verbatim>\<open>KeyError\<close> for an index that has no label.
\<close>

definition ppe_status_init :: dict where
  "ppe_status_init = [(''hardhat'', PInt 1), (''vest'', PInt 1), (''mask'', PInt 1)]"

text \<open>The three tests on one label, in the order of the source.\<close>

definition mark_label :: "string \<Rightarrow> dict \<Rightarrow> dict" where
  "mark_label label d =
     (let d1 = (if str_in ''NO-Hardhat'' label then dict_set ''hardhat'' (PInt 0) d else d);
          d2 = (if str_in ''NO-Safety Vest'' label then dict_set ''vest'' (PInt 0) d1 else d1)
      in (if str_in ''NO-Mask'' label then dict_set ''mask'' (PInt 0) d2 else d2))"

text \<open>The loop \<^verbatim>\<open>for box in results[0].boxes\<close>.\<close>

fun boxes_loop :: "(int \<rightharpoonup> string) \<Rightarrow> int list \<Rightarrow> dict \<Rightarrow> exc + dict" where
  "boxes_loop names [] d = Inr d"
| "boxes_loop names (cls # boxes) d =
     (case names cls of
        None \<Rightarrow> Inl (KeyError cls)
      | Some label \<Rightarrow> boxes_loop names boxes (mark_label label d))"

definition ppe_status_local :: "(int \<rightharpoonup> string) \<Rightarrow> int list \<Rightarrow> exc + dict" where
  "ppe_status_local names boxes = boxes_loop names boxes ppe_status_init"

text \<open>A status triple, as the loop keeps it.\<close>

definition triple :: "int \<Rightarrow> int \<Rightarrow> int \<Rightarrow> dict" where
  "triple h v m = [(''hardhat'', PInt h), (''vest'', PInt v), (''mask'', PInt m)]"

section \<open>Text formatting\<close>

text \<open>
  \<^verbatim>\<open>str(n)\<close> of an integer, as \<^verbatim>\<open>%s\<close>, \<^verbatim>\<open>%d\<close> and an f-string write it, and
  \<^verbatim>\<open>int(s)\<close> of a run of decimal digits.
\<close>

definition digit_char :: "nat \<Rightarrow> char" where
  "digit_char d = char_of (48 + d)"

fun show_nat :: "nat \<Rightarrow> string" where
  "show_nat n = (if n < 10 then [digit_char n] else show_nat (n div 10) @ [digit_char (n mod 10)])"

declare show_nat.simps [simp del]

definition show_int :: "int \<Rightarrow> string" where
  "show_int i = (if i < 0 then CHR ''-'' # show_nat (nat (- i)) else show_nat (nat i))"

definition digit_val :: "char \<Rightarrow> nat" where
  "digit_val c = of_char c - 48"

definition dec_value :: "string \<Rightarrow> nat" where
  "dec_value s = foldl (\<lambda>a c. 10 * a + digit_val c) 0 s"

definition CRLF :: bytes where
  "CRLF = [CHR 0x0D, CHR 0x0A]"

definition dquote :: char where
  "dquote = CHR 0x22"

text \<open>
  \<^verbatim>\<open>json.dumps\<close> of a dictionary whose keys are plain identifiers and whose values are
  integers and floats, with the default separators.  The text of a float
  (\<^verbatim>\<open>float.__repr__\<close>) is a parameter.
\<close>

definition json_str :: "string \<Rightarrow> string" where
  "json_str s = dquote # s @ [dquote]"

fun json_val :: "(real \<Rightarrow> string) \<Rightarrow> pyval \<Rightarrow> string" where
  "json_val repr (PInt i) = show_int i"
| "json_val repr (PFloat x) = repr x"

fun json_items :: "(real \<Rightarrow> string) \<Rightarrow> dict \<Rightarrow> string" where
  "json_items repr [] = []"
| "json_items repr [(k, v)] = json_str k @ '': '' @ json_val repr v"
| "json_items repr ((k, v) # kv # d) =
     json_str k @ '': '' @ json_val repr v @ '', '' @ json_items repr (kv # d)"

definition json_dumps :: "(real \<Rightarrow> string) \<Rightarrow> dict \<Rightarrow> string" where
  "json_dumps repr d = ''{'' @ json_items repr d @ ''}''"

section \<open>Configuration\<close>

definition ESP32_URL :: string where
  "ESP32_URL = ''http://192.168.0.148/update''"

definition SEND_INTERVAL :: real where
  "SEND_INTERVAL = 1"

definition HTML_FILE_PATH :: string where
  "HTML_FILE_PATH = ''index.html''"

section \<open>Effects\<close>

text \<open>
  Each thread leaves a trace of the effects it performs, in program order: taking and
  releasing a lock (entering and leaving a \<^verbatim>\<open>with\<close> block), sleeping, printing, writing
  to the client's socket, reading the page from disk, copying the status dictionary
  (\<open>StatusCopy\<close>), and the calls of the detection loop to its collaborators.  \<^verbatim>\<open>requests.post\<close> is a call of the calling thread:
  \<open>PostCall\<close> records the call with its URL, JSON payload and timeout, \<open>PostReturn\<close>
  that the call has returned a response or raised in that thread.  What the call does
  is a response with its status code, \<^verbatim>\<open>requests.exceptions.Timeout\<close>,
  \<^verbatim>\<open>requests.exceptions.ConnectionError\<close>, or any other exception of class \<^verbatim>\<open>Exception\<close>,
  given by its text.
\<close>

datatype lock = status_lock | frame_lock

datatype post_outcome = Response int | Timeout | ConnectionError | OtherException string

datatype event =
    Acquire lock
  | Release lock
  | Sleep real
  | Print string
  | SocketWrite bytes
  | FileRead string
  | StatusCopy
  | CapRead
  | Inference
  | Imshow
  | WaitKey
  | PostCall string dict real
  | PostReturn post_outcome
  | CapRelease
  | DestroyAllWindows

section \<open>The detection loop \<^verbatim>\<open>cv_loop\<close>\<close>

text \<open>
  The state of the detection thread: the two module-level stores
  (\<^verbatim>\<open>current_ppe_status\<close>, \<^verbatim>\<open>latest_frame\<close>), the local \<^verbatim>\<open>last_send\<close>, and the trace.
  \<^verbatim>\<open>current_ppe_status\<close> is one dictionary object for the whole run (it is mutated in
  place, never rebound), so the state holds its content.
\<close>

record cv_state =
  current_ppe_status :: dict
  latest_frame :: "frame option"
  last_send :: real
  cv_trace :: "event list"

text \<open>The module-level initialisation; \<open>t0\<close> is \<^verbatim>\<open>time.time()\<close> at import.\<close>

definition initial_state :: "real \<Rightarrow> cv_state" where
  "initial_state t0 =
     \<lparr>current_ppe_status =
        [(''hardhat'', PInt 1), (''vest'', PInt 1), (''mask'', PInt 1), (''timestamp'', PFloat t0)],
      latest_frame = None, last_send = 0, cv_trace = []\<rparr>"

text \<open>
  What one pass of the loop receives from outside: whether \<^verbatim>\<open>cap.read()\<close> gave a frame,
  the class indices of \<^verbatim>\<open>results[0].boxes\<close>, the frame drawn by \<^verbatim>\<open>results[0].plot()\<close>,
  the two clock readings (lines 194 and 204), what \<^verbatim>\<open>requests.post\<close> does if it is
  called, and the key code that \<^verbatim>\<open>cv2.waitKey(1)\<close> returns.  The camera, the model and
  the drawing calls are taken to return; an interrupt of the thread, which no handler
  of the program catches, is not part of the model.
\<close>

record cycle_in =
  cap_ret :: bool
  result_boxes :: "int list"
  annotated_frame :: frame
  time_publish :: real
  time_send :: real
  post_result :: post_outcome
  wait_key :: int

datatype 'a flow = Continue 'a | Break 'a | Raise exc 'a

definition emit :: "event list \<Rightarrow> cv_state \<Rightarrow> cv_state" where
  "emit es st = st\<lparr>cv_trace := cv_trace st @ es\<rparr>"

text \<open>Step 4.2, the body of \<^verbatim>\<open>with status_lock\<close>.\<close>

definition publish :: "dict \<Rightarrow> real \<Rightarrow> dict \<Rightarrow> dict" where
  "publish local t cur = dict_set ''timestamp'' (PFloat t) (dict_update cur local)"

text \<open>Step 4.3, the \<^verbatim>\<open>try\<close> statement around \<^verbatim>\<open>requests.post\<close> with its three handlers.\<close>

definition forward :: "dict \<Rightarrow> post_outcome \<Rightarrow> cv_state \<Rightarrow> cv_state" where
  "forward snapshot outcome st =
     (let st1 = emit [PostCall ESP32_URL snapshot (1 / 2), PostReturn outcome] st
      in case outcome of
           Response status_code \<Rightarrow>
             if status_code \<noteq> 200
             then emit [Print (''[ESP32 WARNING] Response unexpected (Status: ''
                                 @ show_int status_code @ '')'')] st1
             else st1
         | Timeout \<Rightarrow>
             emit [Print ''[ESP32 ERROR] Could not connect to ESP32. Check IP/WiFi.''] st1
         | ConnectionError \<Rightarrow>
             emit [Print ''[ESP32 ERROR] Could not connect to ESP32. Check IP/WiFi.''] st1
         | OtherException e \<Rightarrow>
             emit [Print (''[ESP32 ERROR] Send error: '' @ e)] st1)"

text \<open>Step 4.3 as a whole: the push is attempted when the interval has passed.\<close>

definition send_data :: "dict \<Rightarrow> real \<Rightarrow> post_outcome \<Rightarrow> cv_state \<Rightarrow> cv_state" where
  "send_data local current_time outcome st =
     (if current_time - last_send st > SEND_INTERVAL
      then (forward local outcome st)\<lparr>last_send := current_time\<rparr>
      else st)"

text \<open>One pass of \<^verbatim>\<open>while True\<close>.\<close>

definition cv_cycle :: "(int \<rightharpoonup> string) \<Rightarrow> cycle_in \<Rightarrow> cv_state \<Rightarrow> cv_state flow" where
  "cv_cycle names inp st =
     (let st1 = emit [CapRead] st
      in if \<not> cap_ret inp
         then Break (emit [Print ''[YOLO] Camera error or stream ended''] st1)
         else
           let st2 = emit [Inference] st1
           in case ppe_status_local names (result_boxes inp) of
                Inl e \<Rightarrow> Raise e st2
              | Inr local \<Rightarrow>
                  let st3 = emit [Acquire status_lock] st2;
                      st4 = st3\<lparr>current_ppe_status :=
                               publish local (time_publish inp) (current_ppe_status st3)\<rparr>;
                      st5 = emit [Release status_lock, Acquire frame_lock] st4;
                      st6 = st5\<lparr>latest_frame := Some (annotated_frame inp)\<rparr>;
                      st7 = emit [Release frame_lock, Imshow] st6;
                      current_time = time_send inp;
                      st8 = send_data local current_time (post_result inp) st7;
                      st9 = emit [WaitKey] st8
                  in if wait_key inp AND 0xFF = 113 then Break st9 else Continue st9)"

text \<open>
  The loop over the passes whose inputs are given.  \<open>Continue\<close> at the end of the inputs
  says that the loop is still running.
\<close>

fun while_true :: "(int \<rightharpoonup> string) \<Rightarrow> cycle_in list \<Rightarrow> cv_state \<Rightarrow> cv_state flow" where
  "while_true names [] st = Continue st"
| "while_true names (inp # inps) st =
     (case cv_cycle names inp st of
        Continue st' \<Rightarrow> while_true names inps st'
      | Break st' \<Rightarrow> Break st'
      | Raise e st' \<Rightarrow> Raise e st')"

text \<open>The \<^verbatim>\<open>finally\<close> clause.\<close>

definition cleanup :: "cv_state \<Rightarrow> cv_state" where
  "cleanup st = emit [CapRelease, DestroyAllWindows, Print ''[YOLO] Application shut down.''] st"

text \<open>
  \<^verbatim>\<open>cv_loop\<close>: \<open>model_error\<close> is the text of the exception if \<^verbatim>\<open>YOLO(MODEL_PATH)\<close> raises,
  \<open>is_opened\<close> is \<^verbatim>\<open>cap.isOpened()\<close>.  \<open>Break\<close> says that the function has returned.
\<close>

definition cv_loop ::
  "string option \<Rightarrow> bool \<Rightarrow> (int \<rightharpoonup> string) \<Rightarrow> cycle_in list \<Rightarrow> cv_state \<Rightarrow> cv_state flow" where
  "cv_loop model_error is_opened names inps st =
     (let st1 = emit [Print ''[YOLO] Initializing model and camera...''] st
      in case model_error of
           Some e \<Rightarrow>
             Break (emit [Print (''[YOLO ERROR] Error loading model. Check MODEL_PATH: '' @ e)] st1)
         | None \<Rightarrow>
             if \<not> is_opened then Break (emit [Print ''[YOLO ERROR] Cannot open camera.''] st1)
             else
               let st2 = emit [Print (''[YOLO] PPE Detection running. Sending data to ESP32 (''
                                        @ ESP32_URL @ '') every 1.0s.'')]
                           (st1\<lparr>last_send := 0\<rparr>)
               in case while_true names inps st2 of
                    Continue st' \<Rightarrow> Continue st'
                  | Break st' \<Rightarrow> Break (cleanup st')
                  | Raise e st' \<Rightarrow> Raise e (cleanup st'))"

fun state_of :: "cv_state flow \<Rightarrow> cv_state" where
  "state_of (Continue st) = st"
| "state_of (Break st) = st"
| "state_of (Raise e st) = st"

fun propagates :: "cv_state flow \<Rightarrow> bool" where
  "propagates (Raise e st) = True"
| "propagates other = False"


section \<open>The request handler \<^verbatim>\<open>DashboardHandler\<close>\<close>

subsection \<open>What \<^verbatim>\<open>BaseHTTPRequestHandler\<close> provides\<close>

text \<open>
  The handler of one connection, for an HTTP/1.x request: the header lines buffered by
  \<^verbatim>\<open>send_response\<close> and \<^verbatim>\<open>send_header\<close> and written by \<^verbatim>\<open>end_headers\<close>, the bytes
  written to the socket so far (\<^verbatim>\<open>wfile\<close> is unbuffered), and the trace.  The values of
  \<^verbatim>\<open>version_string()\<close> and \<^verbatim>\<open>date_time_string()\<close> are fields.  \<open>writes_left\<close> says after
  how many further socket writes the client is gone (\<open>None\<close>: it stays); the write after
  that raises.
\<close>

record conn =
  headers_buffer :: "bytes list"
  wfile :: bytes
  writes_left :: "nat option"
  trace :: "event list"
  version_string :: string
  date_time_string :: string

definition fresh_conn :: "string \<Rightarrow> string \<Rightarrow> nat option \<Rightarrow> conn" where
  "fresh_conn server date n =
     \<lparr>headers_buffer = [], wfile = [], writes_left = n, trace = [],
      version_string = server, date_time_string = date\<rparr>"

definition logged :: "event list \<Rightarrow> conn \<Rightarrow> conn" where
  "logged es c = c\<lparr>trace := trace c @ es\<rparr>"

text \<open>A handler step either raises, leaving the connection as it was then, or goes on.\<close>

type_synonym step = "(exc \<times> conn) + conn"

definition then_do :: "step \<Rightarrow> (conn \<Rightarrow> step) \<Rightarrow> step" where
  "then_do m f = (case m of Inl failure \<Rightarrow> Inl failure | Inr c \<Rightarrow> f c)"

definition wfile_write :: "bytes \<Rightarrow> conn \<Rightarrow> step" where
  "wfile_write b c =
     (case writes_left c of
        None \<Rightarrow> Inr (logged [SocketWrite b] (c\<lparr>wfile := wfile c @ b\<rparr>))
      | Some 0 \<Rightarrow> Inl (OSError ''[Errno 32] Broken pipe'', c)
      | Some (Suc n) \<Rightarrow>
          Inr (logged [SocketWrite b] (c\<lparr>wfile := wfile c @ b, writes_left := Some n\<rparr>)))"

definition reason_phrase :: "nat \<Rightarrow> string" where
  "reason_phrase code = (if code = 200 then ''OK'' else if code = 404 then ''Not Found'' else [])"

definition send_response_only :: "nat \<Rightarrow> conn \<Rightarrow> conn" where
  "send_response_only code c =
     c\<lparr>headers_buffer := headers_buffer c
          @ [''HTTP/1.0 '' @ show_nat code @ '' '' @ reason_phrase code @ CRLF]\<rparr>"

definition send_header :: "string \<Rightarrow> string \<Rightarrow> conn \<Rightarrow> conn" where
  "send_header keyword val c =
     c\<lparr>headers_buffer := headers_buffer c @ [keyword @ '': '' @ val @ CRLF]\<rparr>"

definition send_response :: "nat \<Rightarrow> conn \<Rightarrow> conn" where
  "send_response code c =
     send_header ''Date'' (date_time_string c)
       (send_header ''Server'' (version_string c) (send_response_only code c))"

definition flush_headers :: "conn \<Rightarrow> step" where
  "flush_headers c =
     then_do (wfile_write (concat (headers_buffer c)) c) (\<lambda>c'. Inr (c'\<lparr>headers_buffer := []\<rparr>))"

definition end_headers :: "conn \<Rightarrow> step" where
  "end_headers c = flush_headers (c\<lparr>headers_buffer := headers_buffer c @ [CRLF]\<rparr>)"

subsection \<open>The static page\<close>

text \<open>
  What opening and reading \<^verbatim>\<open>index.html\<close> does: it gives the text, raises
  \<^verbatim>\<open>FileNotFoundError\<close>, or raises another exception with the given text.  Text is kept
  as its UTF-8 bytes, so \<^verbatim>\<open>encode('utf-8')\<close> changes nothing.
\<close>

datatype read_outcome = Content string | FileNotFoundError | ReadError string

definition load_html_content :: "read_outcome \<Rightarrow> conn \<Rightarrow> bytes \<times> conn" where
  "load_html_content file c =
     (let c1 = logged [FileRead HTML_FILE_PATH] c
      in case file of
           Content text \<Rightarrow> (text, c1)
         | FileNotFoundError \<Rightarrow>
             (let error_message = ''Error: '' @ HTML_FILE_PATH
                                    @ '' not found. Ensure it is in the same directory.''
              in (error_message, logged [Print (''[SERVER ERROR] '' @ error_message)] c1))
         | ReadError e \<Rightarrow>
             (let error_message = ''Error reading '' @ HTML_FILE_PATH @ '': '' @ e
              in (error_message, logged [Print (''[SERVER ERROR] '' @ error_message)] c1)))"

definition send_html :: "read_outcome \<Rightarrow> conn \<Rightarrow> step" where
  "send_html file c =
     then_do (end_headers (send_header ''Content-type'' ''text/html; charset=utf-8''
                            (send_response 200 c)))
       (\<lambda>c1. let (html_content, c2) = load_html_content file c1
             in wfile_write html_content c2)"

subsection \<open>The status document\<close>

text \<open>
  Dictionaries are objects, and \<^verbatim>\<open>current_ppe_status.copy()\<close> makes a new one.  The
  object store is a list of dictionaries, an object's address its index; the module-level
  dictionary \<^verbatim>\<open>current_ppe_status\<close> is object 0.  A publish of the detection thread
  mutates object 0 in place.
\<close>

type_synonym heap = "dict list"

definition status_ref :: nat where
  "status_ref = 0"

definition dict_copy :: "heap \<Rightarrow> nat \<Rightarrow> heap \<times> nat" where
  "dict_copy h a = (h @ [h ! a], length h)"

definition heap_publish :: "dict \<times> real \<Rightarrow> heap \<Rightarrow> heap" where
  "heap_publish p h = h[status_ref := publish (fst p) (snd p) (h ! status_ref)]"

text \<open>
  \<^verbatim>\<open>response = current_ppe_status.copy()\<close>: the copy is made in the object store and
  recorded in the trace at the place where it happens.
\<close>

definition copy_status :: "heap \<Rightarrow> conn \<Rightarrow> heap \<times> nat \<times> conn" where
  "copy_status h c =
     (let (h1, response) = dict_copy h status_ref in (h1, response, logged [StatusCopy] c))"

text \<open>
  \<open>h\<close> is the object store when the handler takes \<^verbatim>\<open>status_lock\<close>; \<open>later\<close> are the
  publishes (snapshot and clock reading) that the detection thread makes between the
  release of the lock and \<^verbatim>\<open>json.dumps(response)\<close>.
\<close>

definition send_status_json :: "(real \<Rightarrow> string) \<Rightarrow> heap \<Rightarrow> (dict \<times> real) list \<Rightarrow> conn \<Rightarrow> step" where
  "send_status_json repr h later c =
     then_do (end_headers (send_header ''Access-Control-Allow-Origin'' ''*''
                            (send_header ''Content-type'' ''application/json''
                              (send_response 200 c))))
       (\<lambda>c1. let c2 = logged [Acquire status_lock] c1;
                 (h1, response, c3) = copy_status h c2;
                 c4 = logged [Release status_lock] c3;
                 h2 = fold heap_publish later h1
             in wfile_write (json_dumps repr (h2 ! response)) c4)"

subsection \<open>The video stream\<close>

text \<open>
  One pass of \<^verbatim>\<open>while True\<close> in \<^verbatim>\<open>_send_video_feed\<close>.  \<open>seen\<close> is the value of
  \<^verbatim>\<open>latest_frame\<close> when the pass holds \<^verbatim>\<open>frame_lock\<close>; \<open>imencode\<close> is
  \<^verbatim>\<open>cv2.imencode('.jpg', _)\<close> followed by \<^verbatim>\<open>tobytes()\<close>: it returns \<^verbatim>\<open>ret\<close> and the
  bytes, or raises.  An exception of the encoder or of a write leaves the pass, and with
  it the loop, for the \<^verbatim>\<open>except\<close> clause around the loop.  Leaving the \<^verbatim>\<open>with\<close> block, by
  \<^verbatim>\<open>continue\<close> or at its end, releases the lock.
\<close>

type_synonym encoder = "frame \<Rightarrow> exc + bool \<times> bytes"

definition video_feed_pass :: "encoder \<Rightarrow> frame option \<Rightarrow> conn \<Rightarrow> step" where
  "video_feed_pass imencode seen c =
     (let c1 = logged [Acquire frame_lock] c
      in case seen of
           None \<Rightarrow> Inr (logged [Sleep (1 / 10), Release frame_lock] c1)
         | Some latest \<Rightarrow>
             let frame = latest;
                 c2 = logged [Release frame_lock] c1
             in case imencode frame of
                  Inl e \<Rightarrow> Inl (e, c2)
                | Inr (ret, frame_bytes) \<Rightarrow>
                    if \<not> ret then Inr c2
                    else
                      then_do (wfile_write (''--frame'' @ CRLF) c2) (\<lambda>c3.
                      then_do (end_headers
                                 (send_header ''Content-Length'' (show_nat (length frame_bytes))
                                   (send_header ''Content-Type'' ''image/jpeg'' c3))) (\<lambda>c4.
                      then_do (wfile_write frame_bytes c4) (\<lambda>c5.
                      then_do (wfile_write CRLF c5) (\<lambda>c6.
                      Inr (logged [Sleep (33 / 1000)] c6))))))"

text \<open>
  How a request ends: the handler is still in its loop when the observations end, it
  has returned, or it has raised (\<^verbatim>\<open>socketserver\<close> then reports the error and goes on).
\<close>

datatype handled = Streaming conn | Returned conn | Failed exc conn

fun exc_str :: "exc \<Rightarrow> string" where
  "exc_str (KeyError k) = show_int k"
| "exc_str (OSError msg) = msg"
| "exc_str (CvError msg) = msg"

fun video_feed_loop :: "encoder \<Rightarrow> frame option list \<Rightarrow> conn \<Rightarrow> handled" where
  "video_feed_loop imencode [] c = Streaming c"
| "video_feed_loop imencode (seen # later) c =
     (case video_feed_pass imencode seen c of
        Inl (e, c') \<Rightarrow> Returned (logged [Print (''[VIDEO FEED ERROR] '' @ exc_str e)] c')
      | Inr c' \<Rightarrow> video_feed_loop imencode later c')"

definition send_video_feed :: "encoder \<Rightarrow> frame option list \<Rightarrow> conn \<Rightarrow> handled" where
  "send_video_feed imencode seen c =
     (case end_headers (send_header ''Access-Control-Allow-Origin'' ''*''
                         (send_header ''Content-type'' ''multipart/x-mixed-replace; boundary=frame''
                           (send_response 200 c))) of
        Inl (e, c') \<Rightarrow> Failed e c'
      | Inr c1 \<Rightarrow> video_feed_loop imencode seen c1)"

subsection \<open>Dispatch and the server loop\<close>

definition send_404 :: "conn \<Rightarrow> step" where
  "send_404 c =
     then_do (end_headers (send_header ''Content-type'' ''text/plain'' (send_response 404 c)))
       (wfile_write ''404 Not Found'')"

text \<open>A request with what its handler meets: the page file, the stores.\<close>

record request =
  path :: string
  page_file :: read_outcome
  heap_seen :: heap
  published_later :: "(dict \<times> real) list"
  frames_seen :: "frame option list"

fun conn_of :: "handled \<Rightarrow> conn" where
  "conn_of (Streaming c) = c"
| "conn_of (Returned c) = c"
| "conn_of (Failed e c) = c"

fun finish :: "step \<Rightarrow> handled" where
  "finish (Inl (e, c)) = Failed e c"
| "finish (Inr c) = Returned c"

definition do_GET ::
  "(real \<Rightarrow> string) \<Rightarrow> encoder \<Rightarrow> request \<Rightarrow> conn \<Rightarrow> handled" where
  "do_GET repr imencode r c =
     (if path r = ''/'' then finish (send_html (page_file r) c)
      else if path r = ''/status''
        then finish (send_status_json repr (heap_seen r) (published_later r) c)
      else if path r = ''/video_feed'' then send_video_feed imencode (frames_seen r) c
      else finish (send_404 c))"

text \<open>
  \<^verbatim>\<open>HTTPServer.serve_forever\<close> handles one request at a time, each on its own
  connection; it comes to the next request when the handler has returned or raised.
\<close>

fun serve_forever ::
  "(real \<Rightarrow> string) \<Rightarrow> encoder \<Rightarrow> (request \<times> conn) list \<Rightarrow> handled list" where
  "serve_forever repr imencode [] = []"
| "serve_forever repr imencode ((r, c) # rest) =
     (case do_GET repr imencode r c of
        Streaming c' \<Rightarrow> [Streaming c']
      | Returned c' \<Rightarrow> Returned c' # serve_forever repr imencode rest
      | Failed e c' \<Rightarrow> Failed e c' # serve_forever repr imencode rest)"


section \<open>Properties to be checked\<close>

text \<open>
  A well-formed status dictionary: exactly the keys \<^verbatim>\<open>hardhat\<close>, \<^verbatim>\<open>vest\<close>, \<^verbatim>\<open>mask\<close> and
  \<^verbatim>\<open>timestamp\<close>, every item flag the integer 0 or 1, the timestamp a float.
\<close>

fun is_flag :: "pyval option \<Rightarrow> bool" where
  "is_flag (Some (PInt i)) = (i = 0 \<or> i = 1)"
| "is_flag other = False"

fun is_float :: "pyval option \<Rightarrow> bool" where
  "is_float (Some (PFloat x)) = True"
| "is_float other = False"

definition wf_status :: "dict \<Rightarrow> bool" where
  "wf_status d =
     (dict_keys d = [''hardhat'', ''vest'', ''mask'', ''timestamp'']
      \<and> is_flag (dict_get d ''hardhat'') \<and> is_flag (dict_get d ''vest'')
      \<and> is_flag (dict_get d ''mask'') \<and> is_float (dict_get d ''timestamp''))"

text \<open>
  Lock discipline of one thread's trace: \<open>held_across held es\<close> says that somewhere in
  \<open>es\<close> the thread sleeps, writes to a socket, reads the disk or posts to the network
  while it holds a lock (\<open>held\<close> are the locks held at the start).
\<close>

fun blocking :: "event \<Rightarrow> bool" where
  "blocking (Sleep d) = True"
| "blocking (SocketWrite b) = True"
| "blocking (FileRead p) = True"
| "blocking (PostCall url payload timeout) = True"
| "blocking e = False"

fun held_across :: "lock list \<Rightarrow> event list \<Rightarrow> bool" where
  "held_across held [] = False"
| "held_across held (Acquire l # es) = held_across (l # held) es"
| "held_across held (Release l # es) = held_across (remove1 l held) es"
| "held_across held (e # es) = ((blocking e \<and> held \<noteq> []) \<or> held_across held es)"

fun held_after :: "lock list \<Rightarrow> event list \<Rightarrow> lock list" where
  "held_after held [] = held"
| "held_after held (Acquire l # es) = held_after (l # held) es"
| "held_after held (Release l # es) = held_after (remove1 l held) es"
| "held_after held (e # es) = held_after held es"

text \<open>
  Whether the detection thread waits for its pushes.  \<open>nonblocking_push es\<close>: the thread
  never receives the outcome of \<^verbatim>\<open>requests.post\<close> itself.  \<open>settled_at_capture pending es\<close>:
  whenever the thread reads the camera, every push it has called has returned or raised
  (\<open>pending\<close>: a push is outstanding at the start).
\<close>

fun is_post_return :: "event \<Rightarrow> bool" where
  "is_post_return (PostReturn outcome) = True"
| "is_post_return e = False"

definition nonblocking_push :: "event list \<Rightarrow> bool" where
  "nonblocking_push es = (\<not> list_ex is_post_return es)"

fun settled_at_capture :: "bool \<Rightarrow> event list \<Rightarrow> bool" where
  "settled_at_capture pending [] = True"
| "settled_at_capture pending (PostCall url payload timeout # es) = settled_at_capture True es"
| "settled_at_capture pending (PostReturn outcome # es) = settled_at_capture False es"
| "settled_at_capture pending (CapRead # es) = (\<not> pending \<and> settled_at_capture pending es)"
| "settled_at_capture pending (e # es) = settled_at_capture pending es"

fun pending_after :: "bool \<Rightarrow> event list \<Rightarrow> bool" where
  "pending_after pending [] = pending"
| "pending_after pending (PostCall url payload timeout # es) = pending_after True es"
| "pending_after pending (PostReturn outcome # es) = pending_after False es"
| "pending_after pending (e # es) = pending_after pending es"

text \<open>
  Reading a response: the status code is the second word of the status line; the codes
  from 400 to 599 report an error.
\<close>

definition status_code :: "bytes \<Rightarrow> nat" where
  "status_code response =
     dec_value (takeWhile (\<lambda>c. c \<noteq> CHR '' '') (drop 1 (dropWhile (\<lambda>c. c \<noteq> CHR '' '') response)))"

definition is_error_status :: "nat \<Rightarrow> bool" where
  "is_error_status code = (400 \<le> code \<and> code < 600)"

text \<open>
  The head of a response as the client receives it: status line, the \<^verbatim>\<open>Server\<close> and
  \<^verbatim>\<open>Date\<close> headers, the handler's own headers, a blank line.
\<close>

definition header_line :: "string \<times> string \<Rightarrow> bytes" where
  "header_line kv = fst kv @ '': '' @ snd kv @ CRLF"

definition response_head :: "conn \<Rightarrow> nat \<Rightarrow> (string \<times> string) list \<Rightarrow> bytes" where
  "response_head c code headers =
     ''HTTP/1.0 '' @ show_nat code @ '' '' @ reason_phrase code @ CRLF
     @ header_line (''Server'', version_string c) @ header_line (''Date'', date_time_string c)
     @ concat (map header_line headers) @ CRLF"

text \<open>
  One part of the multipart stream: boundary line, content type, declared length, blank
  line, payload, CRLF.
\<close>

definition multipart_part :: "string \<Rightarrow> bytes \<Rightarrow> bytes" where
  "multipart_part declared payload =
     ''--frame'' @ CRLF @ header_line (''Content-Type'', ''image/jpeg'')
     @ header_line (''Content-Length'', declared) @ CRLF @ payload @ CRLF"

text \<open>
  The JPEG payloads that the stream handler emits for the frames it has seen, up to the
  first frame on which the encoder raises, and the exception raised there, if any.
\<close>

fun emitted :: "encoder \<Rightarrow> frame option list \<Rightarrow> bytes list" where
  "emitted imencode [] = []"
| "emitted imencode (None # later) = emitted imencode later"
| "emitted imencode (Some f # later) =
     (case imencode f of
        Inl e \<Rightarrow> []
      | Inr (ret, frame_bytes) \<Rightarrow>
          if ret then frame_bytes # emitted imencode later else emitted imencode later)"

fun first_raise :: "encoder \<Rightarrow> frame option list \<Rightarrow> exc option" where
  "first_raise imencode [] = None"
| "first_raise imencode (None # later) = first_raise imencode later"
| "first_raise imencode (Some f # later) =
     (case imencode f of
        Inl e \<Rightarrow> Some e
      | Inr encoded \<Rightarrow> first_raise imencode later)"


text \<open>Whether a request was left streaming.\<close>

fun is_streaming :: "handled \<Rightarrow> bool" where
  "is_streaming (Streaming c) = True"
| "is_streaming other = False"

section \<open>An example run\<close>

text \<open>Labels of a PPE model, and one pass in which a bare head is detected.\<close>

definition example_names :: "int \<rightharpoonup> string" where
  "example_names = [0 \<mapsto> ''Hardhat'', 1 \<mapsto> ''NO-Hardhat'', 2 \<mapsto> ''NO-Mask'',
                    3 \<mapsto> ''NO-Safety Vest'', 4 \<mapsto> ''Person'', 5 \<mapsto> ''Safety Vest'']"

definition example_pass :: cycle_in where
  "example_pass =
     \<lparr>cap_ret = True, result_boxes = [1, 4], annotated_frame = ''frame-1'',
      time_publish = 100, time_send = 101, post_result = Timeout, wait_key = - 1\<rparr>"

text \<open>
  A client that stays connected, an encoder that reports failure on the empty frame and
  raises on a frame it cannot read, the text of the one float of the example, and a
  request for each path.
\<close>

definition example_conn :: conn where
  "example_conn = fresh_conn ''BaseHTTP/0.6 Python/3.11.4'' ''Tue, 03 Nov 2026 14:26:00 GMT'' None"

definition example_imencode :: encoder where
  "example_imencode f =
     (if f = ''corrupt'' then Inl (CvError ''OpenCV: unsupported array type'')
      else Inr (f \<noteq> [], ''JPEG:'' @ f))"

definition example_repr :: "real \<Rightarrow> string" where
  "example_repr x = ''100.0''"

definition example_request :: "string \<Rightarrow> request" where
  "example_request p =
     \<lparr>path = p, page_file = FileNotFoundError,
      heap_seen = [[(''hardhat'', PInt 0), (''vest'', PInt 1), (''mask'', PInt 1),
                    (''timestamp'', PFloat 100)]],
      published_later = [(triple 1 1 1, 101)],
      frames_seen = [None, Some ''frame-1'', Some []]\<rparr>"

section \<open>Facts about strings and dictionaries\<close>

lemma startswith_prefix: "startswith s p = prefix p s"
  by (induction s p rule: startswith.induct) auto

lemma str_in_sublist: "str_in sub s = sublist sub s"
  by (induction s) (simp_all add: startswith_prefix sublist_Cons_right)

lemma str_in_iff: "str_in sub s \<longleftrightarrow> (\<exists>pre suf. s = pre @ sub @ suf)"
  by (simp add: str_in_sublist sublist_def)

lemma dict_keys_set:
  "dict_keys (dict_set k v d) = (if k \<in> set (dict_keys d) then dict_keys d else dict_keys d @ [k])"
  by (induction d) (force simp: dict_keys_def)+

lemma dict_get_set: "dict_get (dict_set k v d) k' = (if k' = k then Some v else dict_get d k')"
  by (induction d) (auto simp: dict_get_def)

section \<open>Facts about the status derivation\<close>

lemma mark_label_triple:
  "mark_label label (triple h v m) =
     triple (if str_in ''NO-Hardhat'' label then 0 else h)
            (if str_in ''NO-Safety Vest'' label then 0 else v)
            (if str_in ''NO-Mask'' label then 0 else m)"
  by (simp add: mark_label_def triple_def)

lemma boxes_loop_triple:
  "map names boxes = map Some labels \<Longrightarrow>
   boxes_loop names boxes (triple h v m) =
     Inr (triple (if \<exists>l \<in> set labels. str_in ''NO-Hardhat'' l then 0 else h)
                 (if \<exists>l \<in> set labels. str_in ''NO-Safety Vest'' l then 0 else v)
                 (if \<exists>l \<in> set labels. str_in ''NO-Mask'' l then 0 else m))"
proof (induction boxes arbitrary: labels h v m)
  case Nil
  then show ?case by simp
next
  case (Cons cls boxes)
  then obtain l ls where ls: "labels = l # ls" "names cls = Some l" "map names boxes = map Some ls"
    by (cases labels) auto
  show ?case
    unfolding ls(1) using ls(2) Cons.IH [OF ls(3)]
    by (simp add: mark_label_triple)
qed

lemma find_app: "find P (xs @ ys) = (case find P xs of None \<Rightarrow> find P ys | Some x \<Rightarrow> Some x)"
  by (induction xs) simp_all

lemma boxes_loop_char:
  "boxes_loop names bs (triple h v m) =
     (case find (\<lambda>b. names b = None) bs of
        None \<Rightarrow> Inr (triple (if \<exists>b \<in> set bs. str_in ''NO-Hardhat'' (the (names b)) then 0 else h)
                          (if \<exists>b \<in> set bs. str_in ''NO-Safety Vest'' (the (names b)) then 0 else v)
                          (if \<exists>b \<in> set bs. str_in ''NO-Mask'' (the (names b)) then 0 else m))
      | Some c \<Rightarrow> Inl (KeyError c))"
proof (induction bs arbitrary: h v m)
  case Nil
  show ?case by simp
next
  case (Cons b bs)
  show ?case
  proof (cases "names b")
    case None
    then show ?thesis by simp
  next
    case (Some l)
    show ?thesis
      by (auto simp add: Some mark_label_triple Cons.IH split: option.split)
  qed
qed

lemma ppe_status_init_triple: "ppe_status_init = triple 1 1 1"
  by (simp add: ppe_status_init_def triple_def)

lemma ppe_status_local_flags:
  assumes "ppe_status_local names boxes = Inr local"
  shows "\<exists>h v m. local = triple h v m \<and> (h = 0 \<or> h = 1) \<and> (v = 0 \<or> v = 1) \<and> (m = 0 \<or> m = 1)"
proof -
  let ?h = "if \<exists>b \<in> set boxes. str_in ''NO-Hardhat'' (the (names b)) then 0 else (1::int)"
  let ?v = "if \<exists>b \<in> set boxes. str_in ''NO-Safety Vest'' (the (names b)) then 0 else (1::int)"
  let ?m = "if \<exists>b \<in> set boxes. str_in ''NO-Mask'' (the (names b)) then 0 else (1::int)"
  from assms have "local = triple ?h ?v ?m"
    unfolding ppe_status_local_def ppe_status_init_triple boxes_loop_char
    by (auto split: option.splits)
  moreover have "?h = 0 \<or> ?h = 1" "?v = 0 \<or> ?v = 1" "?m = 0 \<or> ?m = 1"
    by simp_all
  ultimately show ?thesis by blast
qed

lemma wf_status_shape:
  assumes "wf_status d"
  shows "\<exists>h v m t. d = triple h v m @ [(''timestamp'', PFloat t)]
           \<and> (h = 0 \<or> h = 1) \<and> (v = 0 \<or> v = 1) \<and> (m = 0 \<or> m = 1)"
proof -
  from assms have k: "map fst d = [''hardhat'', ''vest'', ''mask'', ''timestamp'']"
    by (simp add: wf_status_def dict_keys_def)
  then obtain a b c e where d: "d = [(''hardhat'', a), (''vest'', b), (''mask'', c), (''timestamp'', e)]"
    by (auto simp: map_eq_Cons_conv)
  from assms have "is_flag (Some a)" "is_flag (Some b)" "is_flag (Some c)" "is_float (Some e)"
    by (simp_all add: wf_status_def d dict_get_def)
  then show ?thesis
    unfolding d triple_def
    by (cases a; cases b; cases c; cases e) simp_all
qed

lemma wf_status_triple:
  "wf_status (triple h v m @ [(''timestamp'', PFloat t)]) = ((h = 0 \<or> h = 1) \<and> (v = 0 \<or> v = 1) \<and> (m = 0 \<or> m = 1))"
  by (simp add: wf_status_def triple_def dict_keys_def dict_get_def)

lemma dict_update_triple:
  "dict_update (triple a b c @ [(''timestamp'', e)]) (triple h v m) = triple h v m @ [(''timestamp'', e)]"
  by (simp add: dict_update_def triple_def)

lemma publish_triple:
  "publish (triple h v m) t (triple a b c @ [(''timestamp'', e)]) = triple h v m @ [(''timestamp'', PFloat t)]"
  by (simp add: publish_def dict_update_triple) (simp add: triple_def)

section \<open>Facts about the detection loop\<close>

lemma cv_trace_emit [simp]: "cv_trace (emit es st) = cv_trace st @ es"
  and status_emit [simp]: "current_ppe_status (emit es st) = current_ppe_status st"
  and last_send_emit [simp]: "last_send (emit es st) = last_send st"
  and latest_frame_emit [simp]: "latest_frame (emit es st) = latest_frame st"
  by (simp_all add: emit_def)

lemma forward_fields [simp]:
  "current_ppe_status (forward snapshot outcome st) = current_ppe_status st"
  "latest_frame (forward snapshot outcome st) = latest_frame st"
  "last_send (forward snapshot outcome st) = last_send st"
  by (simp_all add: forward_def Let_def split: post_outcome.split)

lemma forward_trace:
  "\<exists>msgs. length msgs \<le> 1 \<and>
     cv_trace (forward snapshot outcome st) =
       cv_trace st @ [PostCall ESP32_URL snapshot (1 / 2), PostReturn outcome] @ map Print msgs"
proof (cases outcome)
  case (Response code)
  show ?thesis
  proof (cases "code = 200")
    case True
    then have "cv_trace (forward snapshot outcome st) =
       cv_trace st @ [PostCall ESP32_URL snapshot (1 / 2), PostReturn outcome] @ map Print []"
      by (simp add: forward_def Response)
    then show ?thesis by (metis list.size(3) zero_le)
  next
    case False
    then have "cv_trace (forward snapshot outcome st) =
       cv_trace st @ [PostCall ESP32_URL snapshot (1 / 2), PostReturn outcome]
         @ map Print [''[ESP32 WARNING] Response unexpected (Status: '' @ show_int code @ '')'']"
      by (simp add: forward_def Response)
    then show ?thesis by (metis le_refl length_Cons list.size(3) One_nat_def)
  qed
next
  case Timeout
  then have "cv_trace (forward snapshot outcome st) =
       cv_trace st @ [PostCall ESP32_URL snapshot (1 / 2), PostReturn outcome]
         @ map Print [''[ESP32 ERROR] Could not connect to ESP32. Check IP/WiFi.'']"
    by (simp add: forward_def)
  then show ?thesis by (metis le_refl length_Cons list.size(3) One_nat_def)
next
  case ConnectionError
  then have "cv_trace (forward snapshot outcome st) =
       cv_trace st @ [PostCall ESP32_URL snapshot (1 / 2), PostReturn outcome]
         @ map Print [''[ESP32 ERROR] Could not connect to ESP32. Check IP/WiFi.'']"
    by (simp add: forward_def)
  then show ?thesis by (metis le_refl length_Cons list.size(3) One_nat_def)
next
  case (OtherException e)
  then have "cv_trace (forward snapshot outcome st) =
       cv_trace st @ [PostCall ESP32_URL snapshot (1 / 2), PostReturn outcome]
         @ map Print [''[ESP32 ERROR] Send error: '' @ e]"
    by (simp add: forward_def)
  then show ?thesis by (metis le_refl length_Cons list.size(3) One_nat_def)
qed

text \<open>The three ways through one pass.\<close>

lemma cv_cycle_no_frame:
  "\<not> cap_ret inp \<Longrightarrow>
   cv_cycle names inp st = Break (emit [CapRead, Print ''[YOLO] Camera error or stream ended''] st)"
  by (simp add: cv_cycle_def emit_def)

lemma cv_cycle_raise:
  "cap_ret inp \<Longrightarrow> ppe_status_local names (result_boxes inp) = Inl e \<Longrightarrow>
   cv_cycle names inp st = Raise e (emit [CapRead, Inference] st)"
  by (simp add: cv_cycle_def emit_def)

lemma cv_cycle_publish:
  "cap_ret inp \<Longrightarrow> ppe_status_local names (result_boxes inp) = Inr local \<Longrightarrow>
   cv_cycle names inp st =
     (if wait_key inp AND 0xFF = 113 then Break else Continue)
       (emit [WaitKey]
         (send_data local (time_send inp) (post_result inp)
           (emit [Release frame_lock, Imshow]
             ((emit [Release status_lock, Acquire frame_lock]
                ((emit [CapRead, Inference, Acquire status_lock] st)
                   \<lparr>current_ppe_status := publish local (time_publish inp) (current_ppe_status st)\<rparr>))
              \<lparr>latest_frame := Some (annotated_frame inp)\<rparr>))))"
  by (simp add: cv_cycle_def Let_def emit_def)

lemma send_data_fields [simp]:
  "current_ppe_status (send_data local t outcome st) = current_ppe_status st"
  "latest_frame (send_data local t outcome st) = latest_frame st"
  by (simp_all add: send_data_def)

lemma cv_cycle_status:
  assumes "cap_ret inp" and "ppe_status_local names (result_boxes inp) = Inr local"
  shows "current_ppe_status (state_of (cv_cycle names inp st)) =
           publish local (time_publish inp) (current_ppe_status st)"
  by (simp add: cv_cycle_publish [OF assms])

lemma cv_cycle_wf:
  assumes "wf_status (current_ppe_status st)"
  shows "wf_status (current_ppe_status (state_of (cv_cycle names inp st)))"
proof (cases "cap_ret inp")
  case False
  then show ?thesis using assms by (simp add: cv_cycle_no_frame)
next
  case True
  show ?thesis
  proof (cases "ppe_status_local names (result_boxes inp)")
    case (Inl e)
    then show ?thesis using assms True by (simp add: cv_cycle_raise)
  next
    case (Inr local)
    from ppe_status_local_flags [OF Inr] obtain h v m
      where l: "local = triple h v m" "h = 0 \<or> h = 1" "v = 0 \<or> v = 1" "m = 0 \<or> m = 1" by blast
    from wf_status_shape [OF assms] obtain a b c e
      where d: "current_ppe_status st = triple a b c @ [(''timestamp'', PFloat e)]" by blast
    show ?thesis
      using l(2-4) by (simp add: cv_cycle_status [OF True Inr] l(1) d publish_triple wf_status_triple)
  qed
qed

lemma while_true_wf:
  "wf_status (current_ppe_status st) \<Longrightarrow>
   wf_status (current_ppe_status (state_of (while_true names inps st)))"
proof (induction inps arbitrary: st)
  case Nil
  then show ?case by simp
next
  case (Cons inp inps)
  from cv_cycle_wf [OF Cons.prems, of names inp]
  show ?case
    by (cases "cv_cycle names inp st") (simp_all add: Cons.IH)
qed

lemma cleanup_status [simp]: "current_ppe_status (cleanup st) = current_ppe_status st"
  by (simp add: cleanup_def)

lemma cv_loop_wf:
  assumes "wf_status (current_ppe_status st)"
  shows "wf_status (current_ppe_status (state_of (cv_loop model_error is_opened names inps st)))"
proof -
  let ?st2 = "emit [Print (''[YOLO] PPE Detection running. Sending data to ESP32 (''
                            @ ESP32_URL @ '') every 1.0s.'')]
               ((emit [Print ''[YOLO] Initializing model and camera...''] st)\<lparr>last_send := 0\<rparr>)"
  have "wf_status (current_ppe_status ?st2)" using assms by simp
  from while_true_wf [OF this, of names inps]
  show ?thesis
    using assms
    by (cases "while_true names inps ?st2")
       (simp_all add: cv_loop_def Let_def split: option.split)
qed

lemma initial_status_wf: "wf_status (current_ppe_status (initial_state t0))"
  by (simp add: initial_state_def wf_status_def dict_keys_def dict_get_def)

lemma wf_status_update:
  assumes "wf_status d" and "ppe_status_local names boxes = Inr local"
  shows "wf_status (dict_update d local)"
proof -
  from ppe_status_local_flags [OF assms(2)] obtain h v m
    where l: "local = triple h v m" "h = 0 \<or> h = 1" "v = 0 \<or> v = 1" "m = 0 \<or> m = 1" by blast
  from wf_status_shape [OF assms(1)] obtain a b c e
    where d: "d = triple a b c @ [(''timestamp'', PFloat e)]" by blast
  show ?thesis using l(2-4) by (simp add: l(1) d dict_update_triple wf_status_triple)
qed

lemma wf_status_publish:
  assumes "wf_status d" and "ppe_status_local names boxes = Inr local"
  shows "wf_status (publish local t d)"
proof -
  from ppe_status_local_flags [OF assms(2)] obtain h v m
    where l: "local = triple h v m" "h = 0 \<or> h = 1" "v = 0 \<or> v = 1" "m = 0 \<or> m = 1" by blast
  from wf_status_shape [OF assms(1)] obtain a b c e
    where d: "d = triple a b c @ [(''timestamp'', PFloat e)]" by blast
  show ?thesis using l(2-4) by (simp add: l(1) d publish_triple wf_status_triple)
qed

lemma send_data_elapsed:
  "SEND_INTERVAL < t - last_send st \<Longrightarrow>
   send_data local t outcome st = (forward local outcome st)\<lparr>last_send := t\<rparr>"
  by (simp add: send_data_def)

lemma send_data_waiting:
  "\<not> SEND_INTERVAL < t - last_send st \<Longrightarrow> send_data local t outcome st = st"
  by (simp add: send_data_def)

lemma cv_cycle_trace_elapsed:
  assumes "cap_ret inp" and "ppe_status_local names (result_boxes inp) = Inr local"
    and "SEND_INTERVAL < time_send inp - last_send st"
  shows "\<exists>msgs. length msgs \<le> 1 \<and>
           cv_trace (state_of (cv_cycle names inp st)) =
             cv_trace st @ [CapRead, Inference, Acquire status_lock, Release status_lock,
                            Acquire frame_lock, Release frame_lock, Imshow,
                            PostCall ESP32_URL local (1 / 2), PostReturn (post_result inp)]
               @ map Print msgs @ [WaitKey]"
proof -
  let ?s = "emit [Release frame_lock, Imshow]
             ((emit [Release status_lock, Acquire frame_lock]
                ((emit [CapRead, Inference, Acquire status_lock] st)
                   \<lparr>current_ppe_status := publish local (time_publish inp) (current_ppe_status st)\<rparr>))
              \<lparr>latest_frame := Some (annotated_frame inp)\<rparr>)"
  have ls: "last_send ?s = last_send st" by simp
  obtain msgs where m: "length msgs \<le> 1"
    "cv_trace (forward local (post_result inp) ?s) =
       cv_trace ?s @ [PostCall ESP32_URL local (1 / 2), PostReturn (post_result inp)] @ map Print msgs"
    using forward_trace by blast
  have "cv_trace (state_of (cv_cycle names inp st)) =
          cv_trace (forward local (post_result inp) ?s) @ [WaitKey]"
    using assms(3) by (simp add: cv_cycle_publish [OF assms(1,2)] send_data_elapsed ls)
  then show ?thesis using m by auto
qed

lemma cv_cycle_trace_waiting:
  assumes "cap_ret inp" and "ppe_status_local names (result_boxes inp) = Inr local"
    and "\<not> SEND_INTERVAL < time_send inp - last_send st"
  shows "cv_trace (state_of (cv_cycle names inp st)) =
             cv_trace st @ [CapRead, Inference, Acquire status_lock, Release status_lock,
                            Acquire frame_lock, Release frame_lock, Imshow, WaitKey]"
  using assms(3) by (simp add: cv_cycle_publish [OF assms(1,2)] send_data_waiting)

lemma cv_cycle_last_send:
  assumes "cap_ret inp" and "ppe_status_local names (result_boxes inp) = Inr local"
  shows "last_send (state_of (cv_cycle names inp st)) =
           (if SEND_INTERVAL < time_send inp - last_send st then time_send inp else last_send st)"
  by (simp add: cv_cycle_publish [OF assms] send_data_def)

lemma cv_cycle_flow:
  assumes "cap_ret inp" and "ppe_status_local names (result_boxes inp) = Inr local"
  shows "\<not> propagates (cv_cycle names inp st)"
  by (simp add: cv_cycle_publish [OF assms])

section \<open>The claims about the detection loop\<close>

text \<open>
  C1.  In every pass whose boxes carry the labels \<open>labels\<close>, the snapshot
  \<^verbatim>\<open>ppe_status_local\<close> has every item at 1 (present) except those for which some label
  contains the item's absence marker (\<^verbatim>\<open>NO-Hardhat\<close>, \<^verbatim>\<open>NO-Safety Vest\<close>, \<^verbatim>\<open>NO-Mask\<close>), which
  are 0 (missing); other labels change nothing.  The pass publishes exactly this snapshot
  with its timestamp, whatever the status was before.
\<close>

theorem status_derivation:
  assumes "map names (result_boxes inp) = map Some labels"
  shows "ppe_status_local names (result_boxes inp) =
           Inr [(''hardhat'', PInt (if \<exists>l \<in> set labels. str_in ''NO-Hardhat'' l then 0 else 1)),
                (''vest'', PInt (if \<exists>l \<in> set labels. str_in ''NO-Safety Vest'' l then 0 else 1)),
                (''mask'', PInt (if \<exists>l \<in> set labels. str_in ''NO-Mask'' l then 0 else 1))]
       \<and> (cap_ret inp \<and> wf_status (current_ppe_status st) \<longrightarrow>
            current_ppe_status (state_of (cv_cycle names inp st)) =
              [(''hardhat'', PInt (if \<exists>l \<in> set labels. str_in ''NO-Hardhat'' l then 0 else 1)),
               (''vest'', PInt (if \<exists>l \<in> set labels. str_in ''NO-Safety Vest'' l then 0 else 1)),
               (''mask'', PInt (if \<exists>l \<in> set labels. str_in ''NO-Mask'' l then 0 else 1)),
               (''timestamp'', PFloat (time_publish inp))])"
proof -
  let ?h = "if \<exists>l \<in> set labels. str_in ''NO-Hardhat'' l then 0 else (1::int)"
  let ?v = "if \<exists>l \<in> set labels. str_in ''NO-Safety Vest'' l then 0 else (1::int)"
  let ?m = "if \<exists>l \<in> set labels. str_in ''NO-Mask'' l then 0 else (1::int)"
  have local: "ppe_status_local names (result_boxes inp) = Inr (triple ?h ?v ?m)"
    using boxes_loop_triple [OF assms, of 1 1 1]
    by (simp add: ppe_status_local_def ppe_status_init_triple)
  have "current_ppe_status (state_of (cv_cycle names inp st)) =
          triple ?h ?v ?m @ [(''timestamp'', PFloat (time_publish inp))]"
    if c: "cap_ret inp" and w: "wf_status (current_ppe_status st)"
  proof -
    from wf_status_shape [OF w] obtain a b c e
      where d: "current_ppe_status st = triple a b c @ [(''timestamp'', PFloat e)]" by blast
    show ?thesis
      unfolding cv_cycle_status [OF c local] d publish_triple ..
  qed
  with local show ?thesis
    unfolding triple_def by simp
qed

theorem status_derivation_witness:
  "map example_names (result_boxes example_pass) = map Some [''NO-Hardhat'', ''Person'']
   \<and> cap_ret example_pass \<and> wf_status (current_ppe_status (initial_state 0))
   \<and> ppe_status_local example_names (result_boxes example_pass) =
       Inr [(''hardhat'', PInt 0), (''vest'', PInt 1), (''mask'', PInt 1)]
   \<and> current_ppe_status (state_of (cv_cycle example_names example_pass (initial_state 0))) =
       [(''hardhat'', PInt 0), (''vest'', PInt 1), (''mask'', PInt 1), (''timestamp'', PFloat 100)]"
proof -
  have l: "map example_names (result_boxes example_pass) = map Some [''NO-Hardhat'', ''Person'']"
    by (simp add: example_names_def example_pass_def)
  have c: "cap_ret example_pass" by (simp add: example_pass_def)
  have t: "time_publish example_pass = 100" by (simp add: example_pass_def)
  from status_derivation [OF l, of "initial_state 0"] c initial_status_wf [of 0] l t
  show ?thesis by simp
qed

text \<open>
  C8.  A second occurrence of a box class (so of its label, an absence label or any
  other) anywhere later in the detection list changes nothing: the snapshot, or the
  \<^verbatim>\<open>KeyError\<close>, is the same as with the single occurrence.
\<close>

theorem duplicate_labels_idempotent:
  "ppe_status_local names (xs @ b # ys @ b # zs) = ppe_status_local names (xs @ b # ys @ zs)"
proof -
  have s: "set (xs @ b # ys @ b # zs) = set (xs @ b # ys @ zs)" by auto
  have f: "find P (xs @ b # ys @ b # zs) = find P (xs @ b # ys @ zs)" for P :: "int \<Rightarrow> bool"
    by (simp add: find_app split: option.split)
  show ?thesis
    unfolding ppe_status_local_def ppe_status_init_triple boxes_loop_char f s ..
qed

text \<open>
  C5.  The status dictionary starts with all three items present and the timestamp of
  the module's initialisation.  After any number of passes of \<^verbatim>\<open>cv_loop\<close>, however the
  loop has ended, it is well formed: its keys are exactly \<^verbatim>\<open>hardhat\<close>, \<^verbatim>\<open>vest\<close>, \<^verbatim>\<open>mask\<close>,
  \<^verbatim>\<open>timestamp\<close>, and every flag is 0 or 1.  It is well formed also inside a publish,
  between \<^verbatim>\<open>update\<close> and the assignment of the timestamp.
\<close>

theorem status_mapping_invariant:
  "current_ppe_status (initial_state t0) =
     [(''hardhat'', PInt 1), (''vest'', PInt 1), (''mask'', PInt 1), (''timestamp'', PFloat t0)]
   \<and> wf_status (current_ppe_status
        (state_of (cv_loop model_error is_opened names inps (initial_state t0))))
   \<and> (wf_status d \<and> ppe_status_local names boxes = Inr local \<longrightarrow>
        wf_status (dict_update d local) \<and> wf_status (publish local t d))"
proof -
  have "current_ppe_status (initial_state t0) =
     [(''hardhat'', PInt 1), (''vest'', PInt 1), (''mask'', PInt 1), (''timestamp'', PFloat t0)]"
    by (simp add: initial_state_def)
  moreover have "wf_status (current_ppe_status
        (state_of (cv_loop model_error is_opened names inps (initial_state t0))))"
    by (rule cv_loop_wf [OF initial_status_wf])
  moreover have "wf_status d \<and> ppe_status_local names boxes = Inr local \<longrightarrow>
        wf_status (dict_update d local) \<and> wf_status (publish local t d)"
    using wf_status_update wf_status_publish by blast
  ultimately show ?thesis by blast
qed

theorem status_mapping_invariant_witness:
  "wf_status (current_ppe_status (initial_state 0))
   \<and> ppe_status_local example_names [1, 4] = Inr (triple 0 1 1)
   \<and> wf_status (current_ppe_status
        (state_of (cv_loop None True example_names [example_pass, example_pass] (initial_state 0))))
   \<and> wf_status (dict_update (current_ppe_status (initial_state 0)) (triple 0 1 1))
   \<and> wf_status (publish (triple 0 1 1) 100 (current_ppe_status (initial_state 0)))"
proof -
  have l: "ppe_status_local example_names [1, 4] = Inr (triple 0 1 1)"
    by (simp add: ppe_status_local_def ppe_status_init_triple mark_label_triple example_names_def)
  from status_mapping_invariant
         [of 0 None True example_names "[example_pass, example_pass]"
             "current_ppe_status (initial_state 0)" "[1, 4]" "triple 0 1 1" 100]
       initial_status_wf [of 0] l
  show ?thesis by blast
qed

lemma forward_trace_exact:
  "cv_trace (forward snapshot outcome st) =
     cv_trace st @ [PostCall ESP32_URL snapshot (1 / 2), PostReturn outcome]
       @ (case outcome of
            Response code \<Rightarrow>
              if code = 200 then []
              else [Print (''[ESP32 WARNING] Response unexpected (Status: ''
                             @ show_int code @ '')'')]
          | Timeout \<Rightarrow> [Print ''[ESP32 ERROR] Could not connect to ESP32. Check IP/WiFi.'']
          | ConnectionError \<Rightarrow>
              [Print ''[ESP32 ERROR] Could not connect to ESP32. Check IP/WiFi.'']
          | OtherException e \<Rightarrow> [Print (''[ESP32 ERROR] Send error: '' @ e)])"
  by (cases outcome) (simp_all add: forward_def)

lemma cv_cycle_latest_frame:
  assumes "cap_ret inp" and "ppe_status_local names (result_boxes inp) = Inr local"
  shows "latest_frame (state_of (cv_cycle names inp st)) = Some (annotated_frame inp)"
  by (simp add: cv_cycle_publish [OF assms])

lemma cv_cycle_trace_exact:
  assumes "cap_ret inp" and "ppe_status_local names (result_boxes inp) = Inr local"
    and "SEND_INTERVAL < time_send inp - last_send st"
  shows "cv_trace (state_of (cv_cycle names inp st)) =
           cv_trace st @ [CapRead, Inference, Acquire status_lock, Release status_lock,
                          Acquire frame_lock, Release frame_lock, Imshow,
                          PostCall ESP32_URL local (1 / 2), PostReturn (post_result inp)]
             @ (case post_result inp of
                  Response code \<Rightarrow>
                    if code = 200 then []
                    else [Print (''[ESP32 WARNING] Response unexpected (Status: ''
                                   @ show_int code @ '')'')]
                | Timeout \<Rightarrow>
                    [Print ''[ESP32 ERROR] Could not connect to ESP32. Check IP/WiFi.'']
                | ConnectionError \<Rightarrow>
                    [Print ''[ESP32 ERROR] Could not connect to ESP32. Check IP/WiFi.'']
                | OtherException e \<Rightarrow> [Print (''[ESP32 ERROR] Send error: '' @ e)])
             @ [WaitKey]"
  using assms(3)
  by (simp add: cv_cycle_publish [OF assms(1,2)] send_data_elapsed forward_trace_exact)

text \<open>
  C2.  In a pass that has published and in which more than \<^verbatim>\<open>SEND_INTERVAL\<close> has passed
  since \<^verbatim>\<open>last_send\<close>, whatever \<^verbatim>\<open>requests.post\<close> does, no exception leaves the pass and
  \<^verbatim>\<open>last_send\<close> becomes the clock reading taken before the attempt.  Every failure is
  logged by exactly one printed line: a response whose status code is not 200 by the
  warning with that code, a timeout and a connection error by the line
  \<^verbatim>\<open>[ESP32 ERROR] Could not connect to ESP32. Check IP/WiFi.\<close>, any other exception by
  \<^verbatim>\<open>[ESP32 ERROR] Send error:\<close> and its text; a response with status 200 prints nothing.
  The outcome changes nothing else: the status and the frame are those just published.
\<close>

theorem forward_failures_contained:
  assumes "cap_ret inp" and "ppe_status_local names (result_boxes inp) = Inr local"
    and "SEND_INTERVAL < time_send inp - last_send st"
  shows "\<not> propagates (cv_cycle names inp st)
       \<and> last_send (state_of (cv_cycle names inp st)) = time_send inp
       \<and> cv_trace (state_of (cv_cycle names inp st)) =
           cv_trace st @ [CapRead, Inference, Acquire status_lock, Release status_lock,
                          Acquire frame_lock, Release frame_lock, Imshow,
                          PostCall ESP32_URL local (1 / 2), PostReturn (post_result inp)]
             @ (case post_result inp of
                  Response code \<Rightarrow>
                    if code = 200 then []
                    else [Print (''[ESP32 WARNING] Response unexpected (Status: ''
                                   @ show_int code @ '')'')]
                | Timeout \<Rightarrow>
                    [Print ''[ESP32 ERROR] Could not connect to ESP32. Check IP/WiFi.'']
                | ConnectionError \<Rightarrow>
                    [Print ''[ESP32 ERROR] Could not connect to ESP32. Check IP/WiFi.'']
                | OtherException e \<Rightarrow> [Print (''[ESP32 ERROR] Send error: '' @ e)])
             @ [WaitKey]
       \<and> current_ppe_status (state_of (cv_cycle names inp st)) =
           publish local (time_publish inp) (current_ppe_status st)
       \<and> latest_frame (state_of (cv_cycle names inp st)) = Some (annotated_frame inp)"
  using cv_cycle_flow [OF assms(1,2)] cv_cycle_last_send [OF assms(1,2)]
    cv_cycle_trace_exact [OF assms] cv_cycle_status [OF assms(1,2)]
    cv_cycle_latest_frame [OF assms(1,2)] assms(3)
  by simp

theorem forward_failures_contained_witness:
  "cap_ret example_pass
   \<and> ppe_status_local example_names (result_boxes example_pass) = Inr (triple 0 1 1)
   \<and> SEND_INTERVAL < time_send example_pass - last_send (initial_state 0)
   \<and> \<not> propagates (cv_cycle example_names example_pass (initial_state 0))
   \<and> last_send (state_of (cv_cycle example_names example_pass (initial_state 0))) = 101
   \<and> cv_trace (state_of (cv_cycle example_names example_pass (initial_state 0))) =
       [CapRead, Inference, Acquire status_lock, Release status_lock,
        Acquire frame_lock, Release frame_lock, Imshow,
        PostCall ''http://192.168.0.148/update''
          [(''hardhat'', PInt 0), (''vest'', PInt 1), (''mask'', PInt 1)] (1 / 2),
        PostReturn Timeout,
        Print ''[ESP32 ERROR] Could not connect to ESP32. Check IP/WiFi.'', WaitKey]
   \<and> cv_trace (state_of (cv_cycle example_names (example_pass\<lparr>post_result := Response 503\<rparr>)
                             (initial_state 0))) =
       [CapRead, Inference, Acquire status_lock, Release status_lock,
        Acquire frame_lock, Release frame_lock, Imshow,
        PostCall ''http://192.168.0.148/update''
          [(''hardhat'', PInt 0), (''vest'', PInt 1), (''mask'', PInt 1)] (1 / 2),
        PostReturn (Response 503),
        Print ''[ESP32 WARNING] Response unexpected (Status: 503)'', WaitKey]"
proof -
  let ?p = "example_pass\<lparr>post_result := Response 503\<rparr>"
  have c: "cap_ret example_pass" "cap_ret ?p" by (simp_all add: example_pass_def)
  have l: "ppe_status_local example_names (result_boxes example_pass) = Inr (triple 0 1 1)"
    "ppe_status_local example_names (result_boxes ?p) = Inr (triple 0 1 1)"
    by (simp_all add: ppe_status_local_def ppe_status_init_triple mark_label_triple
        example_names_def example_pass_def)
  have e: "SEND_INTERVAL < time_send example_pass - last_send (initial_state 0)"
    "SEND_INTERVAL < time_send ?p - last_send (initial_state 0)"
    by (simp_all add: SEND_INTERVAL_def example_pass_def initial_state_def)
  have t: "time_send example_pass = 101" "post_result example_pass = Timeout"
    "post_result ?p = Response 503" "cv_trace (initial_state 0) = []"
    by (simp_all add: example_pass_def initial_state_def)
  have n: "show_int 503 = ''503''" by code_simp
  from forward_failures_contained [OF c(1) l(1) e(1)]
       forward_failures_contained [OF c(2) l(2) e(2)] c(1) l(1) e(1)
  show ?thesis
    by (simp add: t n ESP32_URL_def triple_def)
qed

section \<open>The push and the next capture\<close>

lemma pending_after_append:
  "pending_after p (xs @ ys) = pending_after (pending_after p xs) ys"
  by (induction p xs rule: pending_after.induct) simp_all

lemma settled_at_capture_append:
  "settled_at_capture p (xs @ ys) =
     (settled_at_capture p xs \<and> settled_at_capture (pending_after p xs) ys)"
  by (induction p xs rule: settled_at_capture.induct) simp_all

lemma pending_after_prints [simp]: "pending_after p (map Print msgs) = p"
  by (induction msgs) simp_all

lemma settled_at_capture_prints [simp]: "settled_at_capture p (map Print msgs)"
  by (induction msgs) simp_all

text \<open>A trace at whose end no push is outstanding, and at none of whose captures one was.\<close>

lemma cv_cycle_settled:
  assumes "settled_at_capture False (cv_trace st) \<and> \<not> pending_after False (cv_trace st)"
  shows "settled_at_capture False (cv_trace (state_of (cv_cycle names inp st)))
       \<and> \<not> pending_after False (cv_trace (state_of (cv_cycle names inp st)))"
proof (cases "cap_ret inp")
  case False
  then show ?thesis
    using assms by (simp add: cv_cycle_no_frame settled_at_capture_append pending_after_append)
next
  case True
  show ?thesis
  proof (cases "ppe_status_local names (result_boxes inp)")
    case (Inl e)
    then show ?thesis
      using assms True
      by (simp add: cv_cycle_raise settled_at_capture_append pending_after_append)
  next
    case (Inr local)
    show ?thesis
    proof (cases "SEND_INTERVAL < time_send inp - last_send st")
      case elapsed: True
      from cv_cycle_trace_elapsed [OF True Inr elapsed] obtain msgs where
        "cv_trace (state_of (cv_cycle names inp st)) =
           cv_trace st @ [CapRead, Inference, Acquire status_lock, Release status_lock,
                          Acquire frame_lock, Release frame_lock, Imshow,
                          PostCall ESP32_URL local (1 / 2), PostReturn (post_result inp)]
             @ map Print msgs @ [WaitKey]" by blast
      then show ?thesis
        using assms by (simp add: settled_at_capture_append pending_after_append)
    next
      case False
      from cv_cycle_trace_waiting [OF True Inr False]
      show ?thesis
        using assms by (simp add: settled_at_capture_append pending_after_append)
    qed
  qed
qed

lemma while_true_settled:
  "settled_at_capture False (cv_trace st) \<and> \<not> pending_after False (cv_trace st) \<Longrightarrow>
   settled_at_capture False (cv_trace (state_of (while_true names inps st)))
     \<and> \<not> pending_after False (cv_trace (state_of (while_true names inps st)))"
proof (induction inps arbitrary: st)
  case Nil
  then show ?case by simp
next
  case (Cons inp inps)
  from cv_cycle_settled [OF Cons.prems, of names inp]
  show ?case
    by (cases "cv_cycle names inp st") (simp_all add: Cons.IH)
qed

lemma cv_trace_cleanup [simp]:
  "cv_trace (cleanup st) =
     cv_trace st @ [CapRelease, DestroyAllWindows, Print ''[YOLO] Application shut down.'']"
  by (simp add: cleanup_def)

lemma cv_loop_settled:
  assumes "settled_at_capture False (cv_trace st) \<and> \<not> pending_after False (cv_trace st)"
  shows "settled_at_capture False
           (cv_trace (state_of (cv_loop model_error is_opened names inps st)))"
proof -
  let ?st2 = "emit [Print (''[YOLO] PPE Detection running. Sending data to ESP32 (''
                            @ ESP32_URL @ '') every 1.0s.'')]
               ((emit [Print ''[YOLO] Initializing model and camera...''] st)\<lparr>last_send := 0\<rparr>)"
  have "settled_at_capture False (cv_trace ?st2) \<and> \<not> pending_after False (cv_trace ?st2)"
    using assms by (simp add: settled_at_capture_append pending_after_append)
  from while_true_settled [OF this, of names inps]
  show ?thesis
    using assms
    by (cases "while_true names inps ?st2")
       (simp_all add: cv_loop_def Let_def settled_at_capture_append pending_after_append
          split: option.split)
qed

text \<open>
  C4.  Amended: when more than \<^verbatim>\<open>SEND_INTERVAL\<close> has passed since \<^verbatim>\<open>last_send\<close>, the pass
  itself calls \<^verbatim>\<open>requests.post\<close> (timeout 0.5 s, the snapshot just computed as JSON) and
  has its response or exception before it polls the keyboard; otherwise it makes no
  push.  In every run of \<^verbatim>\<open>cv_loop\<close>, at every read of the camera all pushes made so far
  have returned or raised: the next capture waits for the push.
\<close>

theorem forward_is_synchronous:
  "settled_at_capture False
     (cv_trace (state_of (cv_loop model_error is_opened names inps (initial_state t0))))
   \<and> (cap_ret inp \<and> ppe_status_local names (result_boxes inp) = Inr local \<longrightarrow>
        (SEND_INTERVAL < time_send inp - last_send st \<longrightarrow>
           (\<exists>msgs. cv_trace (state_of (cv_cycle names inp st)) =
              cv_trace st @ [CapRead, Inference, Acquire status_lock, Release status_lock,
                             Acquire frame_lock, Release frame_lock, Imshow,
                             PostCall ESP32_URL local (1 / 2), PostReturn (post_result inp)]
                @ map Print msgs @ [WaitKey]))
      \<and> (\<not> SEND_INTERVAL < time_send inp - last_send st \<longrightarrow>
           cv_trace (state_of (cv_cycle names inp st)) =
              cv_trace st @ [CapRead, Inference, Acquire status_lock, Release status_lock,
                             Acquire frame_lock, Release frame_lock, Imshow, WaitKey]))"
proof -
  have "settled_at_capture False (cv_trace (initial_state t0))
          \<and> \<not> pending_after False (cv_trace (initial_state t0))"
    by (simp add: initial_state_def)
  from cv_loop_settled [OF this]
  show ?thesis
    using cv_cycle_trace_elapsed cv_cycle_trace_waiting by blast
qed

theorem forward_is_synchronous_witness:
  "cap_ret example_pass
   \<and> ppe_status_local example_names (result_boxes example_pass) = Inr (triple 0 1 1)
   \<and> SEND_INTERVAL < time_send example_pass - last_send (initial_state 0)
   \<and> settled_at_capture False
       (cv_trace (state_of (cv_loop None True example_names [example_pass, example_pass]
                              (initial_state 0))))
   \<and> (\<exists>msgs. cv_trace (state_of (cv_cycle example_names example_pass (initial_state 0))) =
         [CapRead, Inference, Acquire status_lock, Release status_lock,
          Acquire frame_lock, Release frame_lock, Imshow,
          PostCall ESP32_URL (triple 0 1 1) (1 / 2), PostReturn Timeout]
           @ map Print msgs @ [WaitKey])"
proof -
  have c: "cap_ret example_pass" by (simp add: example_pass_def)
  have l: "ppe_status_local example_names (result_boxes example_pass) = Inr (triple 0 1 1)"
    by (simp add: ppe_status_local_def ppe_status_init_triple mark_label_triple example_names_def
        example_pass_def)
  have e: "SEND_INTERVAL < time_send example_pass - last_send (initial_state 0)"
    by (simp add: SEND_INTERVAL_def example_pass_def initial_state_def)
  have t: "post_result example_pass = Timeout" "cv_trace (initial_state 0) = []"
    by (simp_all add: example_pass_def initial_state_def)
  from forward_is_synchronous
         [of None True example_names "[example_pass, example_pass]" 0 example_pass
             "triple 0 1 1" "initial_state 0"] c l e t
  show ?thesis by simp
qed

text \<open>
  The claim as stated fails in a run of two example passes.  The push of the first pass
  times out; the thread has that outcome, and prints its error line, before it polls the
  keyboard and reads the camera again.
\<close>

theorem forward_nonblocking_counterexample:
  "cv_trace (state_of (while_true example_names [example_pass, example_pass] (initial_state 0))) =
     [CapRead, Inference, Acquire status_lock, Release status_lock,
      Acquire frame_lock, Release frame_lock, Imshow,
      PostCall ''http://192.168.0.148/update''
        [(''hardhat'', PInt 0), (''vest'', PInt 1), (''mask'', PInt 1)] (1 / 2),
      PostReturn Timeout,
      Print ''[ESP32 ERROR] Could not connect to ESP32. Check IP/WiFi.'',
      WaitKey, CapRead, Inference, Acquire status_lock, Release status_lock,
      Acquire frame_lock, Release frame_lock, Imshow, WaitKey]
   \<and> \<not> nonblocking_push
         (cv_trace (state_of (while_true example_names [example_pass, example_pass]
                                (initial_state 0))))"
proof -
  have l: "ppe_status_local example_names (result_boxes example_pass) = Inr (triple 0 1 1)"
    by (simp add: ppe_status_local_def ppe_status_init_triple mark_label_triple example_names_def
        example_pass_def)
  have "cv_trace (state_of (while_true example_names [example_pass, example_pass]
                              (initial_state 0))) =
     [CapRead, Inference, Acquire status_lock, Release status_lock,
      Acquire frame_lock, Release frame_lock, Imshow,
      PostCall ''http://192.168.0.148/update''
        [(''hardhat'', PInt 0), (''vest'', PInt 1), (''mask'', PInt 1)] (1 / 2),
      PostReturn Timeout,
      Print ''[ESP32 ERROR] Could not connect to ESP32. Check IP/WiFi.'',
      WaitKey, CapRead, Inference, Acquire status_lock, Release status_lock,
      Acquire frame_lock, Release frame_lock, Imshow, WaitKey]"
    by (simp add: cv_cycle_def l Let_def emit_def send_data_def forward_def
          SEND_INTERVAL_def ESP32_URL_def triple_def)
       (simp add: example_pass_def initial_state_def)
  then show ?thesis by (simp add: nonblocking_push_def)
qed

section \<open>Facts about the handler\<close>

lemma show_nat_200: "show_nat 200 = ''200''"
  by code_simp

lemma show_nat_404: "show_nat 404 = ''404''"
  by code_simp

lemma logged_fields [simp]:
  "trace (logged es c) = trace c @ es"
  "wfile (logged es c) = wfile c"
  "headers_buffer (logged es c) = headers_buffer c"
  "writes_left (logged es c) = writes_left c"
  "version_string (logged es c) = version_string c"
  "date_time_string (logged es c) = date_time_string c"
  by (simp_all add: logged_def)

lemma logged_logged [simp]: "logged es (logged es' c) = logged (es' @ es) c"
  by (simp add: logged_def)

lemma then_do_simps [simp]:
  "then_do (Inr c) f = f c"
  "then_do (Inl failure) f = Inl failure"
  by (simp_all add: then_do_def)

text \<open>A client that stays: every write succeeds.\<close>

lemma wfile_write_stays:
  "writes_left c = None \<Longrightarrow>
   wfile_write b c = Inr (logged [SocketWrite b] (c\<lparr>wfile := wfile c @ b\<rparr>))"
  by (simp add: wfile_write_def)

lemma wfile_write_gone:
  "writes_left c = Some 0 \<Longrightarrow> wfile_write b c = Inl (OSError ''[Errno 32] Broken pipe'', c)"
  by (simp add: wfile_write_def)

lemma end_headers_stays:
  "writes_left c = None \<Longrightarrow>
   end_headers c =
     Inr (logged [SocketWrite (concat (headers_buffer c) @ CRLF)]
            (c\<lparr>wfile := wfile c @ concat (headers_buffer c) @ CRLF, headers_buffer := []\<rparr>))"
  by (simp add: end_headers_def flush_headers_def wfile_write_stays logged_def)

lemma send_fields [simp]:
  "writes_left (send_header k v c) = writes_left c"
  "wfile (send_header k v c) = wfile c"
  "trace (send_header k v c) = trace c"
  "version_string (send_header k v c) = version_string c"
  "date_time_string (send_header k v c) = date_time_string c"
  "headers_buffer (send_header k v c) = headers_buffer c @ [header_line (k, v)]"
  "writes_left (send_response code c) = writes_left c"
  "wfile (send_response code c) = wfile c"
  "trace (send_response code c) = trace c"
  "version_string (send_response code c) = version_string c"
  "date_time_string (send_response code c) = date_time_string c"
  by (simp_all add: send_header_def send_response_def send_response_only_def header_line_def)

lemma send_response_buffer:
  "headers_buffer c = [] \<Longrightarrow>
   concat (headers_buffer (send_response code c)) =
     ''HTTP/1.0 '' @ show_nat code @ '' '' @ reason_phrase code @ CRLF
       @ header_line (''Server'', version_string c) @ header_line (''Date'', date_time_string c)"
  by (simp add: send_response_def send_header_def send_response_only_def header_line_def)

text \<open>The head of a response, for one and for two headers of the handler's own.\<close>

lemma head_one:
  assumes "writes_left c = None" and "headers_buffer c = []"
  shows "end_headers (send_header k v (send_response code c)) =
           Inr (logged [SocketWrite (response_head c code [(k, v)])]
                  (c\<lparr>wfile := wfile c @ response_head c code [(k, v)]\<rparr>))"
  using assms
  by (simp add: end_headers_stays send_response_buffer response_head_def)

lemma head_two:
  assumes "writes_left c = None" and "headers_buffer c = []"
  shows "end_headers (send_header k' v' (send_header k v (send_response code c))) =
           Inr (logged [SocketWrite (response_head c code [(k, v), (k', v')])]
                  (c\<lparr>wfile := wfile c @ response_head c code [(k, v), (k', v')]\<rparr>))"
  using assms
  by (simp add: end_headers_stays send_response_buffer response_head_def)


section \<open>Facts about the video stream\<close>

lemma video_feed_pass_no_frame:
  "video_feed_pass imencode None c =
     Inr (logged [Acquire frame_lock, Sleep (1 / 10), Release frame_lock] c)"
  by (simp add: video_feed_pass_def)

lemma video_feed_pass_encode_failed:
  "imencode f = Inr (False, b) \<Longrightarrow>
   video_feed_pass imencode (Some f) c = Inr (logged [Acquire frame_lock, Release frame_lock] c)"
  by (simp add: video_feed_pass_def)

lemma video_feed_pass_encode_raised:
  "imencode f = Inl e \<Longrightarrow>
   video_feed_pass imencode (Some f) c =
     Inl (e, logged [Acquire frame_lock, Release frame_lock] c)"
  by (simp add: video_feed_pass_def)

lemma video_feed_pass_part:
  assumes "imencode f = Inr (True, b)" and "writes_left c = None" and "headers_buffer c = []"
  shows "video_feed_pass imencode (Some f) c =
     Inr (logged [Acquire frame_lock, Release frame_lock,
                  SocketWrite (''--frame'' @ CRLF),
                  SocketWrite (header_line (''Content-Type'', ''image/jpeg'')
                     @ header_line (''Content-Length'', show_nat (length b)) @ CRLF),
                  SocketWrite b, SocketWrite CRLF, Sleep (33 / 1000)]
            (c\<lparr>wfile := wfile c @ multipart_part (show_nat (length b)) b\<rparr>))"
  using assms
  by (simp add: video_feed_pass_def wfile_write_stays end_headers_stays multipart_part_def
        logged_def)

lemma video_feed_loop_stays:
  assumes "writes_left c = None" and "headers_buffer c = []"
  shows "\<exists>c'. video_feed_loop imencode seen c =
                (case first_raise imencode seen of
                   None \<Rightarrow> Streaming c' | Some e \<Rightarrow> Returned c')
            \<and> wfile c' = wfile c @ concat (map (\<lambda>payload. multipart_part (show_nat (length payload)) payload)
                                        (emitted imencode seen))
            \<and> writes_left c' = None \<and> headers_buffer c' = []"
  using assms
proof (induction seen arbitrary: c)
  case Nil
  then show ?case by simp
next
  case (Cons s seen)
  show ?case
  proof (cases s)
    case None
    let ?c = "logged [Acquire frame_lock, Sleep (1 / 10), Release frame_lock] c"
    have "writes_left ?c = None" "headers_buffer ?c = []" using Cons.prems by simp_all
    from Cons.IH [OF this] show ?thesis
      by (simp add: None video_feed_pass_no_frame)
  next
    case (Some f)
    show ?thesis
    proof (cases "imencode f")
      case (Inl e)
      show ?thesis
        using Cons.prems Inl
        by (simp add: Some video_feed_pass_encode_raised [of imencode f e c])
    next
      case (Inr encoded)
      obtain ret b where rb: "encoded = (ret, b)" by (cases encoded)
      show ?thesis
      proof (cases ret)
        case False
        let ?c = "logged [Acquire frame_lock, Release frame_lock] c"
        have e: "imencode f = Inr (False, b)" using Inr rb False by simp
        have "writes_left ?c = None" "headers_buffer ?c = []" using Cons.prems by simp_all
        from Cons.IH [OF this] show ?thesis
          using e by (simp add: Some video_feed_pass_encode_failed [of imencode f b c])
      next
        case True
        let ?c = "logged [Acquire frame_lock, Release frame_lock,
                    SocketWrite (''--frame'' @ CRLF),
                    SocketWrite (header_line (''Content-Type'', ''image/jpeg'')
                       @ header_line (''Content-Length'', show_nat (length b)) @ CRLF),
                    SocketWrite b, SocketWrite CRLF, Sleep (33 / 1000)]
              (c\<lparr>wfile := wfile c @ multipart_part (show_nat (length b)) b\<rparr>)"
        have e: "imencode f = Inr (True, b)" using Inr rb True by simp
        have "writes_left ?c = None" "headers_buffer ?c = []" using Cons.prems by simp_all
        from Cons.IH [OF this] show ?thesis
          using e Cons.prems by (simp add: Some video_feed_pass_part [of imencode f b c])
      qed
    qed
  qed
qed

lemma video_feed_loop_waiting:
  "video_feed_loop imencode (replicate n None) c =
     Streaming (logged (concat (replicate n [Acquire frame_lock, Sleep (1 / 10), Release frame_lock])) c)"
proof (induction n arbitrary: c)
  case 0
  show ?case by (simp add: logged_def)
next
  case (Suc n)
  have "concat (replicate n [Acquire frame_lock, Sleep (1 / 10), Release frame_lock])
          @ [Acquire frame_lock, Sleep (1 / 10), Release frame_lock]
        = [Acquire frame_lock, Sleep (1 / 10), Release frame_lock]
          @ concat (replicate n [Acquire frame_lock, Sleep (1 / 10), Release frame_lock])"
    by (induction n) simp_all
  then show ?case
    by (simp add: video_feed_pass_no_frame Suc.IH)
qed

section \<open>Facts about the status document and the page\<close>


lemma heap_publish_append:
  "status_ref < length h \<Longrightarrow> heap_publish p (h @ [d]) = heap_publish p h @ [d]"
  by (simp add: heap_publish_def list_update_append1 nth_append)

lemma length_heap_publish [simp]: "length (heap_publish p h) = length h"
  by (simp add: heap_publish_def)

lemma fold_heap_publish_copy:
  "status_ref < length h \<Longrightarrow>
   fold heap_publish later (h @ [d]) = fold heap_publish later h @ [d]
     \<and> length (fold heap_publish later h) = length h"
proof (induction later arbitrary: h)
  case Nil
  show ?case by simp
next
  case (Cons p later)
  from Cons.prems have "status_ref < length (heap_publish p h)" by simp
  from Cons.IH [OF this] show ?case
    by (simp add: heap_publish_append [OF Cons.prems])
qed

lemma copy_survives_publishes:
  assumes "status_ref < length h"
  shows "fold heap_publish later (fst (dict_copy h status_ref)) ! snd (dict_copy h status_ref)
           = h ! status_ref"
  using fold_heap_publish_copy [OF assms, of later "h ! status_ref"]
  by (simp add: dict_copy_def nth_append)

lemma dec_value_200: "dec_value ''200'' = 200"
  by (simp add: dec_value_def digit_val_def)

lemma status_code_head: "status_code (response_head c 200 headers @ body) = 200"
  by (simp add: status_code_def response_head_def show_nat_200 reason_phrase_def dec_value_200)

lemma fresh_conn_fields [simp]:
  "writes_left (fresh_conn server date n) = n"
  "headers_buffer (fresh_conn server date n) = []"
  "wfile (fresh_conn server date n) = []"
  "trace (fresh_conn server date n) = []"
  "version_string (fresh_conn server date n) = server"
  "date_time_string (fresh_conn server date n) = date"
  by (simp_all add: fresh_conn_def)

lemma send_status_json_stays:
  assumes "writes_left c = None" and "headers_buffer c = []" and "status_ref < length h"
  shows "send_status_json repr h later c =
     Inr (logged [SocketWrite (response_head c 200 [(''Content-type'', ''application/json''),
                                                      (''Access-Control-Allow-Origin'', ''*'')]),
                  Acquire status_lock, StatusCopy, Release status_lock,
                  SocketWrite (json_dumps repr (h ! status_ref))]
           (c\<lparr>wfile := wfile c
                  @ response_head c 200 [(''Content-type'', ''application/json''),
                                         (''Access-Control-Allow-Origin'', ''*'')]
                  @ json_dumps repr (h ! status_ref)\<rparr>))"
  using assms(1,2) copy_survives_publishes [OF assms(3), of later]
  by (simp add: send_status_json_def copy_status_def head_two wfile_write_stays case_prod_beta
        logged_def)

lemma send_html_not_found:
  assumes "writes_left c = None" and "headers_buffer c = []"
  shows "send_html FileNotFoundError c =
     Inr (logged [SocketWrite (response_head c 200 [(''Content-type'', ''text/html; charset=utf-8'')]),
                  FileRead ''index.html'',
                  Print ''[SERVER ERROR] Error: index.html not found. Ensure it is in the same directory.'',
                  SocketWrite ''Error: index.html not found. Ensure it is in the same directory.'']
           (c\<lparr>wfile := wfile c
                  @ response_head c 200 [(''Content-type'', ''text/html; charset=utf-8'')]
                  @ ''Error: index.html not found. Ensure it is in the same directory.''\<rparr>))"
  using assms
  by (simp add: send_html_def head_one load_html_content_def wfile_write_stays HTML_FILE_PATH_def
        Let_def logged_def)

lemma send_html_read_error:
  assumes "writes_left c = None" and "headers_buffer c = []"
  shows "send_html (ReadError e) c =
     Inr (logged [SocketWrite (response_head c 200 [(''Content-type'', ''text/html; charset=utf-8'')]),
                  FileRead ''index.html'',
                  Print (''[SERVER ERROR] Error reading index.html: '' @ e),
                  SocketWrite (''Error reading index.html: '' @ e)]
           (c\<lparr>wfile := wfile c
                  @ response_head c 200 [(''Content-type'', ''text/html; charset=utf-8'')]
                  @ ''Error reading index.html: '' @ e\<rparr>))"
  using assms
  by (simp add: send_html_def head_one load_html_content_def wfile_write_stays HTML_FILE_PATH_def
        Let_def logged_def)

lemma send_html_content:
  assumes "writes_left c = None" and "headers_buffer c = []"
  shows "send_html (Content text) c =
     Inr (logged [SocketWrite (response_head c 200 [(''Content-type'', ''text/html; charset=utf-8'')]),
                  FileRead ''index.html'', SocketWrite text]
           (c\<lparr>wfile := wfile c
                  @ response_head c 200 [(''Content-type'', ''text/html; charset=utf-8'')]
                  @ text\<rparr>))"
  using assms
  by (simp add: send_html_def head_one load_html_content_def wfile_write_stays HTML_FILE_PATH_def
        Let_def logged_def)

section \<open>Decimal numbers\<close>

lemma digit_val_char: "d < 10 \<Longrightarrow> digit_val (digit_char d) = d"
  by (simp add: digit_val_def digit_char_def)

lemma dec_value_snoc: "dec_value (s @ [c]) = 10 * dec_value s + digit_val c"
  by (simp add: dec_value_def)

lemma dec_value_show_nat: "dec_value (show_nat n) = n"
proof (induction n rule: show_nat.induct)
  case (1 n)
  show ?case
  proof (cases "n < 10")
    case True
    then show ?thesis by (simp add: show_nat.simps [of n] dec_value_def digit_val_char)
  next
    case False
    then show ?thesis
      using 1 by (simp add: show_nat.simps [of n] dec_value_snoc digit_val_char)
  qed
qed

section \<open>The claims about the handler\<close>

text \<open>
  C3.  The claim fails in \<^verbatim>\<open>_send_video_feed\<close>: when \<^verbatim>\<open>latest_frame\<close> is \<^verbatim>\<open>None\<close>, the pass
  takes \<^verbatim>\<open>frame_lock\<close>, sleeps 0.1 s inside the \<^verbatim>\<open>with\<close> block and releases the lock only
  on \<^verbatim>\<open>continue\<close>.  So a request for \<^verbatim>\<open>/video_feed\<close> made before the first frame is
  published sleeps while it holds the lock.
\<close>

theorem stream_wait_holds_frame_lock:
  "video_feed_pass imencode None c =
     Inr (logged [Acquire frame_lock, Sleep (1 / 10), Release frame_lock] c)
   \<and> held_across [] [Acquire frame_lock, Sleep (1 / 10), Release frame_lock]
   \<and> held_across []
        (trace (conn_of (do_GET repr imencode
           \<lparr>path = ''/video_feed'', page_file = file, heap_seen = h, published_later = later,
            frames_seen = [None]\<rparr>
           (fresh_conn server date None))))"
proof -
  have "trace (conn_of (do_GET repr imencode
           \<lparr>path = ''/video_feed'', page_file = file, heap_seen = h, published_later = later,
            frames_seen = [None]\<rparr>
           (fresh_conn server date None))) =
        [SocketWrite (response_head (fresh_conn server date None) 200
           [(''Content-type'', ''multipart/x-mixed-replace; boundary=frame''),
            (''Access-Control-Allow-Origin'', ''*'')]),
         Acquire frame_lock, Sleep (1 / 10), Release frame_lock]"
    by (simp add: do_GET_def send_video_feed_def head_two video_feed_pass_no_frame)
  then show ?thesis
    by (simp add: video_feed_pass_no_frame)
qed

text \<open>
  C6.  For a client that stays connected, the stream handler does not return or raise
  however many passes it makes, unless the encoder raises: while it sees no frame it
  writes nothing after the response head and only waits 0.1 s per pass; for every frame
  it sees and can encode it writes one part, and the body is the sequence of these
  parts.  A part is the boundary line, the \<^verbatim>\<open>Content-Type: image/jpeg\<close> line, the
  \<^verbatim>\<open>Content-Length\<close> line, a blank line, the payload and CRLF, and the declared length,
  read as a decimal number, is the length of the payload.  If the encoder raises on a
  frame, the body is the parts of the frames before it.
\<close>

theorem stream_parts:
  "(\<exists>c'. send_video_feed imencode seen (fresh_conn server date None) =
            (case first_raise imencode seen of
               None \<Rightarrow> Streaming c' | Some e \<Rightarrow> Returned c')
        \<and> wfile c' =
            response_head (fresh_conn server date None) 200
              [(''Content-type'', ''multipart/x-mixed-replace; boundary=frame''),
               (''Access-Control-Allow-Origin'', ''*'')]
            @ concat (map (\<lambda>payload. multipart_part (show_nat (length payload)) payload)
                        (emitted imencode seen)))
   \<and> multipart_part (show_nat (length payload)) payload =
        ''--frame'' @ CRLF @ ''Content-Type: image/jpeg'' @ CRLF
        @ ''Content-Length: '' @ show_nat (length payload) @ CRLF @ CRLF @ payload @ CRLF
   \<and> dec_value (show_nat (length payload)) = length payload
   \<and> send_video_feed imencode (replicate n None) (fresh_conn server date None) =
        Streaming (logged
          (SocketWrite (response_head (fresh_conn server date None) 200
              [(''Content-type'', ''multipart/x-mixed-replace; boundary=frame''),
               (''Access-Control-Allow-Origin'', ''*'')])
           # concat (replicate n [Acquire frame_lock, Sleep (1 / 10), Release frame_lock]))
          ((fresh_conn server date None)
             \<lparr>wfile := response_head (fresh_conn server date None) 200
                [(''Content-type'', ''multipart/x-mixed-replace; boundary=frame''),
                 (''Access-Control-Allow-Origin'', ''*'')]\<rparr>))"
proof -
  let ?c0 = "fresh_conn server date None"
  let ?head = "response_head ?c0 200
              [(''Content-type'', ''multipart/x-mixed-replace; boundary=frame''),
               (''Access-Control-Allow-Origin'', ''*'')]"
  let ?c1 = "logged [SocketWrite ?head] (?c0\<lparr>wfile := wfile ?c0 @ ?head\<rparr>)"
  have feed: "send_video_feed imencode obs ?c0 = video_feed_loop imencode obs ?c1" for obs
    by (simp add: send_video_feed_def head_two)
  have "writes_left ?c1 = None" "headers_buffer ?c1 = []" by simp_all
  from video_feed_loop_stays [OF this, of imencode seen]
  have a: "\<exists>c'. send_video_feed imencode seen ?c0 =
            (case first_raise imencode seen of
               None \<Rightarrow> Streaming c' | Some e \<Rightarrow> Returned c')
        \<and> wfile c' = ?head @ concat (map (\<lambda>payload. multipart_part (show_nat (length payload)) payload)
                        (emitted imencode seen))"
    by (auto simp add: feed)
  have b: "multipart_part (show_nat (length payload)) payload =
        ''--frame'' @ CRLF @ ''Content-Type: image/jpeg'' @ CRLF
        @ ''Content-Length: '' @ show_nat (length payload) @ CRLF @ CRLF @ payload @ CRLF"
    by (simp add: multipart_part_def header_line_def)
  have c: "send_video_feed imencode (replicate n None) ?c0 =
        Streaming (logged
          (SocketWrite ?head
           # concat (replicate n [Acquire frame_lock, Sleep (1 / 10), Release frame_lock]))
          (?c0\<lparr>wfile := ?head\<rparr>))"
    by (simp add: feed video_feed_loop_waiting)
  from a b c dec_value_show_nat show ?thesis by blast
qed

text \<open>
  C10.  Amended: when the encoding of the frame seen fails, nothing of a part is written
  to the socket and nothing is left in the header buffer, so no malformed or truncated
  part reaches the client.  If \<^verbatim>\<open>cv2.imencode\<close> reports the failure by \<^verbatim>\<open>ret = False\<close>, the
  pass only takes and releases \<^verbatim>\<open>frame_lock\<close>, prints nothing, and the loop goes on with
  the next pass.  If \<^verbatim>\<open>cv2.imencode\<close> raises, the exception is caught by the \<^verbatim>\<open>except\<close>
  clause around the loop: the handler prints \<^verbatim>\<open>[VIDEO FEED ERROR]\<close> with the text of the
  exception and returns, so the stream ends.
\<close>

theorem encode_failure_writes_nothing:
  "(imencode f = Inr (False, b) \<longrightarrow>
      video_feed_pass imencode (Some f) c =
        Inr (logged [Acquire frame_lock, Release frame_lock] c)
    \<and> video_feed_loop imencode (Some f # later) c =
        video_feed_loop imencode later (logged [Acquire frame_lock, Release frame_lock] c)
    \<and> emitted imencode (Some f # later) = emitted imencode later)
   \<and> (imencode f = Inl e \<longrightarrow>
      video_feed_pass imencode (Some f) c =
        Inl (e, logged [Acquire frame_lock, Release frame_lock] c)
    \<and> video_feed_loop imencode (Some f # later) c =
        Returned (logged [Acquire frame_lock, Release frame_lock,
                          Print (''[VIDEO FEED ERROR] '' @ exc_str e)] c)
    \<and> emitted imencode (Some f # later) = [])
   \<and> wfile (logged [Acquire frame_lock, Release frame_lock] c) = wfile c
   \<and> headers_buffer (logged [Acquire frame_lock, Release frame_lock] c) = headers_buffer c
   \<and> wfile (logged [Acquire frame_lock, Release frame_lock,
                     Print (''[VIDEO FEED ERROR] '' @ exc_str e)] c) = wfile c"
  by (simp add: video_feed_pass_encode_failed video_feed_pass_encode_raised)

theorem encode_failure_writes_nothing_witness:
  "example_imencode [] = Inr (False, ''JPEG:'')
   \<and> example_imencode ''corrupt'' = Inl (CvError ''OpenCV: unsupported array type'')
   \<and> video_feed_pass example_imencode (Some []) example_conn =
       Inr (logged [Acquire frame_lock, Release frame_lock] example_conn)
   \<and> video_feed_loop example_imencode [Some [], None] example_conn =
       video_feed_loop example_imencode [None]
         (logged [Acquire frame_lock, Release frame_lock] example_conn)
   \<and> video_feed_loop example_imencode [Some ''corrupt'', None] example_conn =
       Returned (logged [Acquire frame_lock, Release frame_lock,
                         Print ''[VIDEO FEED ERROR] OpenCV: unsupported array type'']
                   example_conn)
   \<and> wfile (logged [Acquire frame_lock, Release frame_lock] example_conn) = []"
proof -
  have f: "example_imencode [] = Inr (False, ''JPEG:'')"
    and r: "example_imencode ''corrupt'' = Inl (CvError ''OpenCV: unsupported array type'')"
    by (simp_all add: example_imencode_def)
  have w: "wfile example_conn = []" by (simp add: example_conn_def)
  from encode_failure_writes_nothing
         [of example_imencode "[]" "''JPEG:''" example_conn "[None]"
             "CvError ''OpenCV: unsupported array type''"]
       encode_failure_writes_nothing
         [of example_imencode "''corrupt''" "[]" example_conn "[None]"
             "CvError ''OpenCV: unsupported array type''"]
       f r w
  show ?thesis by simp
qed

text \<open>
  The claim as stated fails when the encoder raises: the stream handler of the example,
  seeing a frame that the encoder cannot read and then a good frame, prints the error
  and returns.  The failure is not silent, and the loop does not go on to the next frame.
\<close>

theorem encode_raise_ends_stream_counterexample:
  "example_imencode ''corrupt'' = Inl (CvError ''OpenCV: unsupported array type'')
   \<and> video_feed_loop example_imencode [Some ''corrupt'', Some ''frame-1''] example_conn =
       Returned (logged [Acquire frame_lock, Release frame_lock,
                         Print ''[VIDEO FEED ERROR] OpenCV: unsupported array type'']
                   example_conn)
   \<and> \<not> is_streaming
         (do_GET example_repr example_imencode
            ((example_request ''/video_feed'')
               \<lparr>frames_seen := [Some ''corrupt'', Some ''frame-1'']\<rparr>)
            example_conn)"
proof -
  have r: "example_imencode ''corrupt'' = Inl (CvError ''OpenCV: unsupported array type'')"
    by (simp add: example_imencode_def)
  have c0: "writes_left example_conn = None" "headers_buffer example_conn = []"
    by (simp_all add: example_conn_def)
  have "video_feed_loop example_imencode [Some ''corrupt'', Some ''frame-1''] example_conn =
       Returned (logged [Acquire frame_lock, Release frame_lock,
                         Print ''[VIDEO FEED ERROR] OpenCV: unsupported array type'']
                   example_conn)"
    using r
    by (simp add: video_feed_pass_encode_raised
          [of example_imencode "''corrupt''" "CvError ''OpenCV: unsupported array type''"])
  moreover have "\<not> is_streaming
         (do_GET example_repr example_imencode
            ((example_request ''/video_feed'')
               \<lparr>frames_seen := [Some ''corrupt'', Some ''frame-1'']\<rparr>)
            example_conn)"
    using r
    by (simp add: do_GET_def example_request_def send_video_feed_def head_two [OF c0]
          video_feed_pass_encode_raised
            [of example_imencode "''corrupt''" "CvError ''OpenCV: unsupported array type''"])
  ultimately show ?thesis using r by blast
qed




text \<open>
  C7.  Amended: when \<^verbatim>\<open>index.html\<close> is missing or cannot be read, a request for \<^verbatim>\<open>/\<close> from
  a client that stays connected is answered with status 200 (the status line is sent
  before the file is opened) and a body that is the error message; the handler returns
  normally and the server goes on to the next request.
\<close>

theorem static_page_load_failure:
  "(\<exists>c'. serve_forever repr imencode
            ((\<lparr>path = ''/'', page_file = FileNotFoundError, heap_seen = h,
               published_later = later, frames_seen = seen\<rparr>,
              fresh_conn server date None) # rest)
          = Returned c' # serve_forever repr imencode rest
        \<and> wfile c' =
            response_head (fresh_conn server date None) 200
              [(''Content-type'', ''text/html; charset=utf-8'')]
            @ ''Error: index.html not found. Ensure it is in the same directory.''
        \<and> status_code (wfile c') = 200)
   \<and> (\<exists>c'. serve_forever repr imencode
            ((\<lparr>path = ''/'', page_file = ReadError e, heap_seen = h,
               published_later = later, frames_seen = seen\<rparr>,
              fresh_conn server date None) # rest)
          = Returned c' # serve_forever repr imencode rest
        \<and> wfile c' =
            response_head (fresh_conn server date None) 200
              [(''Content-type'', ''text/html; charset=utf-8'')]
            @ ''Error reading index.html: '' @ e
        \<and> status_code (wfile c') = 200)"
proof -
  let ?c0 = "fresh_conn server date None"
  have c0: "writes_left ?c0 = None" "headers_buffer ?c0 = []" by simp_all
  have a: "\<exists>c'. serve_forever repr imencode
            ((\<lparr>path = ''/'', page_file = FileNotFoundError, heap_seen = h,
               published_later = later, frames_seen = seen\<rparr>, ?c0) # rest)
          = Returned c' # serve_forever repr imencode rest
        \<and> wfile c' = response_head ?c0 200 [(''Content-type'', ''text/html; charset=utf-8'')]
            @ ''Error: index.html not found. Ensure it is in the same directory.''
        \<and> status_code (wfile c') = 200"
    using status_code_head
      [of ?c0 _ "''Error: index.html not found. Ensure it is in the same directory.''"]
    by (simp add: do_GET_def send_html_not_found [OF c0])
  have b: "\<exists>c'. serve_forever repr imencode
            ((\<lparr>path = ''/'', page_file = ReadError e, heap_seen = h,
               published_later = later, frames_seen = seen\<rparr>, ?c0) # rest)
          = Returned c' # serve_forever repr imencode rest
        \<and> wfile c' = response_head ?c0 200 [(''Content-type'', ''text/html; charset=utf-8'')]
            @ ''Error reading index.html: '' @ e
        \<and> status_code (wfile c') = 200"
    using status_code_head [of ?c0 _ "''Error reading index.html: '' @ e"]
    by (simp add: do_GET_def send_html_read_error [OF c0])
  from a b show ?thesis by blast
qed

text \<open>
  The claim as stated fails for the example request for \<^verbatim>\<open>/\<close>, whose page file is
  missing: the response has status 200, which is not an error status.
\<close>

theorem static_page_error_status_counterexample:
  "status_code (wfile (conn_of
      (do_GET example_repr example_imencode (example_request ''/'') example_conn))) = 200
   \<and> \<not> is_error_status (status_code (wfile (conn_of
      (do_GET example_repr example_imencode (example_request ''/'') example_conn))))"
proof -
  have c0: "writes_left example_conn = None" "headers_buffer example_conn = []"
    and w0: "wfile example_conn = []"
    by (simp_all add: example_conn_def)
  have "status_code (wfile (conn_of
      (do_GET example_repr example_imencode (example_request ''/'') example_conn))) = 200"
    using status_code_head
      [of example_conn _ "''Error: index.html not found. Ensure it is in the same directory.''"]
    by (simp add: do_GET_def example_request_def send_html_not_found [OF c0] w0)
  then show ?thesis by (simp add: is_error_status_def)
qed

section \<open>Lock discipline of the other critical sections\<close>

lemma held_after_append:
  "held_after held (xs @ ys) = held_after (held_after held xs) ys"
  by (induction held xs rule: held_after.induct) simp_all

lemma held_across_append:
  "held_across held (xs @ ys) =
     (held_across held xs \<or> held_across (held_after held xs) ys)"
  by (induction held xs rule: held_across.induct) auto

lemma held_after_prints [simp]: "held_after held (map Print msgs) = held"
  by (induction msgs) simp_all

lemma held_across_prints [simp]: "\<not> held_across held (map Print msgs)"
  by (induction msgs) simp_all

lemma cv_cycle_locks:
  assumes "\<not> held_across [] (cv_trace st) \<and> held_after [] (cv_trace st) = []"
  shows "\<not> held_across [] (cv_trace (state_of (cv_cycle names inp st)))
       \<and> held_after [] (cv_trace (state_of (cv_cycle names inp st))) = []"
proof (cases "cap_ret inp")
  case False
  then show ?thesis
    using assms by (simp add: cv_cycle_no_frame held_across_append held_after_append)
next
  case True
  show ?thesis
  proof (cases "ppe_status_local names (result_boxes inp)")
    case (Inl e)
    then show ?thesis
      using assms True
      by (simp add: cv_cycle_raise held_across_append held_after_append)
  next
    case (Inr local)
    show ?thesis
    proof (cases "SEND_INTERVAL < time_send inp - last_send st")
      case elapsed: True
      from cv_cycle_trace_elapsed [OF True Inr elapsed] obtain msgs where
        "cv_trace (state_of (cv_cycle names inp st)) =
           cv_trace st @ [CapRead, Inference, Acquire status_lock, Release status_lock,
                          Acquire frame_lock, Release frame_lock, Imshow,
                          PostCall ESP32_URL local (1 / 2), PostReturn (post_result inp)]
             @ map Print msgs @ [WaitKey]" by blast
      then show ?thesis
        using assms by (simp add: held_across_append held_after_append)
    next
      case False
      from cv_cycle_trace_waiting [OF True Inr False]
      show ?thesis
        using assms by (simp add: held_across_append held_after_append)
    qed
  qed
qed

lemma while_true_locks:
  "\<not> held_across [] (cv_trace st) \<and> held_after [] (cv_trace st) = [] \<Longrightarrow>
   \<not> held_across [] (cv_trace (state_of (while_true names inps st)))
     \<and> held_after [] (cv_trace (state_of (while_true names inps st))) = []"
proof (induction inps arbitrary: st)
  case Nil
  then show ?case by simp
next
  case (Cons inp inps)
  from cv_cycle_locks [OF Cons.prems, of names inp]
  show ?case
    by (cases "cv_cycle names inp st") (simp_all add: Cons.IH)
qed

lemma cv_loop_locks:
  assumes "\<not> held_across [] (cv_trace st) \<and> held_after [] (cv_trace st) = []"
  shows "\<not> held_across [] (cv_trace (state_of (cv_loop model_error is_opened names inps st)))"
proof -
  let ?st2 = "emit [Print (''[YOLO] PPE Detection running. Sending data to ESP32 (''
                            @ ESP32_URL @ '') every 1.0s.'')]
               ((emit [Print ''[YOLO] Initializing model and camera...''] st)\<lparr>last_send := 0\<rparr>)"
  have "\<not> held_across [] (cv_trace ?st2) \<and> held_after [] (cv_trace ?st2) = []"
    using assms by (simp add: held_across_append held_after_append)
  from while_true_locks [OF this, of names inps]
  show ?thesis
    using assms
    by (cases "while_true names inps ?st2")
       (simp_all add: cv_loop_def Let_def held_across_append held_after_append
          split: option.split)
qed

text \<open>
  In every run of \<^verbatim>\<open>cv_loop\<close> the detection thread holds \<^verbatim>\<open>status_lock\<close> and \<^verbatim>\<open>frame_lock\<close>
  only to store the new value: it never sleeps, posts, reads the disk or writes to a
  socket while it holds a lock.
\<close>

theorem detection_loop_lock_discipline:
  "\<not> held_across []
       (cv_trace (state_of (cv_loop model_error is_opened names inps (initial_state t0))))"
proof -
  have "\<not> held_across [] (cv_trace (initial_state t0))
          \<and> held_after [] (cv_trace (initial_state t0)) = []"
    by (simp add: initial_state_def)
  then show ?thesis by (rule cv_loop_locks)
qed

text \<open>
  The status handler and a stream pass that sees a frame hold their lock only to copy:
  all their socket writes and the pacing sleep happen after the release.
\<close>

theorem handler_copy_lock_discipline:
  assumes "status_ref < length h" and "imencode f = Inr (True, b)"
  shows "\<not> held_across []
           (trace (conn_of (do_GET repr imencode
              \<lparr>path = ''/status'', page_file = page, heap_seen = h, published_later = later,
               frames_seen = seen\<rparr>
              (fresh_conn server date None))))
       \<and> \<not> held_across []
           (trace (conn_of (do_GET repr imencode
              \<lparr>path = ''/video_feed'', page_file = page, heap_seen = h, published_later = later,
               frames_seen = [Some f]\<rparr>
              (fresh_conn server date None))))"
proof -
  let ?c0 = "fresh_conn server date None"
  have c0: "writes_left ?c0 = None" "headers_buffer ?c0 = []" by simp_all
  have a: "\<not> held_across []
           (trace (conn_of (do_GET repr imencode
              \<lparr>path = ''/status'', page_file = page, heap_seen = h, published_later = later,
               frames_seen = seen\<rparr> ?c0)))"
    by (simp add: do_GET_def send_status_json_stays [OF c0 assms(1)])
  let ?head = "response_head ?c0 200
              [(''Content-type'', ''multipart/x-mixed-replace; boundary=frame''),
               (''Access-Control-Allow-Origin'', ''*'')]"
  let ?c1 = "logged [SocketWrite ?head] (?c0\<lparr>wfile := ?head\<rparr>)"
  have c1: "writes_left ?c1 = None" "headers_buffer ?c1 = []" by simp_all
  have feed: "send_video_feed imencode [Some f] ?c0 = video_feed_loop imencode [Some f] ?c1"
    by (simp add: send_video_feed_def head_two)
  have b: "\<not> held_across []
           (trace (conn_of (do_GET repr imencode
              \<lparr>path = ''/video_feed'', page_file = page, heap_seen = h, published_later = later,
               frames_seen = [Some f]\<rparr> ?c0)))"
    using assms(2) c1
    by (simp add: do_GET_def feed video_feed_pass_part [of imencode f b ?c1])
  from a b show ?thesis by blast
qed

theorem handler_copy_lock_discipline_witness:
  "status_ref < length (heap_seen (example_request ''/status''))
   \<and> example_imencode ''frame-1'' = Inr (True, ''JPEG:frame-1'')
   \<and> \<not> held_across []
         (trace (conn_of (do_GET example_repr example_imencode
            ((example_request ''/status'')\<lparr>frames_seen := [Some ''frame-1'']\<rparr>) example_conn)))
   \<and> \<not> held_across []
         (trace (conn_of (do_GET example_repr example_imencode
            ((example_request ''/video_feed'')\<lparr>frames_seen := [Some ''frame-1'']\<rparr>) example_conn)))"
proof -
  have a: "status_ref < length (heap_seen (example_request ''/status''))"
    by (simp add: example_request_def status_ref_def)
  have b: "example_imencode ''frame-1'' = Inr (True, ''JPEG:frame-1'')"
    by (simp add: example_imencode_def)
  from handler_copy_lock_discipline
         [where h = "heap_seen (example_request ''/status'')" and imencode = example_imencode
            and f = "''frame-1''" and b = "''JPEG:frame-1''"
            and repr = example_repr and page = FileNotFoundError
            and later = "[(triple 1 1 1, 101)]" and seen = "[Some ''frame-1'']"
            and server = "''BaseHTTP/0.6 Python/3.11.4''"
            and date = "''Tue, 03 Nov 2026 14:26:00 GMT''"] a b
  show ?thesis
    by (simp add: example_request_def example_conn_def)
qed

section \<open>Disconnects and unknown paths\<close>

text \<open>
  When the client is gone at the first write of a part, the stream handler catches the
  exception of the write, prints it and returns; nothing is raised to the server.
\<close>

theorem stream_client_disconnect:
  assumes "imencode f = Inr (True, b)" and "writes_left c = Some 0"
  shows "video_feed_loop imencode (Some f # later) c =
           Returned (logged [Acquire frame_lock, Release frame_lock,
                             Print ''[VIDEO FEED ERROR] [Errno 32] Broken pipe''] c)"
  using assms
  by (simp add: video_feed_pass_def wfile_write_gone)

theorem stream_client_disconnect_witness:
  "example_imencode ''frame-1'' = Inr (True, ''JPEG:frame-1'')
   \<and> writes_left (example_conn\<lparr>writes_left := Some 0\<rparr>) = Some 0
   \<and> video_feed_loop example_imencode [Some ''frame-1'', None]
        (example_conn\<lparr>writes_left := Some 0\<rparr>) =
       Returned (logged [Acquire frame_lock, Release frame_lock,
                         Print ''[VIDEO FEED ERROR] [Errno 32] Broken pipe'']
                   (example_conn\<lparr>writes_left := Some 0\<rparr>))"
proof -
  have a: "example_imencode ''frame-1'' = Inr (True, ''JPEG:frame-1'')"
    by (simp add: example_imencode_def)
  have b: "writes_left (example_conn\<lparr>writes_left := Some 0\<rparr>) = Some 0" by simp
  from stream_client_disconnect [of example_imencode "''frame-1''" "''JPEG:frame-1''"
         "example_conn\<lparr>writes_left := Some 0\<rparr>" "[None]"] a b
  show ?thesis by blast
qed

text \<open>
  A request for any path other than \<^verbatim>\<open>/\<close>, \<^verbatim>\<open>/status\<close> and \<^verbatim>\<open>/video_feed\<close> is answered with
  status 404 and the plain text \<^verbatim>\<open>404 Not Found\<close>.
\<close>

theorem unknown_path_404:
  assumes "path r \<noteq> ''/''" and "path r \<noteq> ''/status''" and "path r \<noteq> ''/video_feed''"
  shows "do_GET repr imencode r (fresh_conn server date None) =
           Returned (logged [SocketWrite (response_head (fresh_conn server date None) 404
                                            [(''Content-type'', ''text/plain'')]),
                             SocketWrite ''404 Not Found'']
                      ((fresh_conn server date None)
                         \<lparr>wfile := response_head (fresh_conn server date None) 404
                                     [(''Content-type'', ''text/plain'')]
                                   @ ''404 Not Found''\<rparr>))"
  using assms
  by (simp add: do_GET_def send_404_def head_one wfile_write_stays logged_def)

theorem unknown_path_404_witness:
  "path (example_request ''/nope'') \<noteq> ''/''
   \<and> path (example_request ''/nope'') \<noteq> ''/status''
   \<and> path (example_request ''/nope'') \<noteq> ''/video_feed''
   \<and> wfile (conn_of (do_GET example_repr example_imencode (example_request ''/nope'')
                        example_conn)) =
       response_head example_conn 404 [(''Content-type'', ''text/plain'')] @ ''404 Not Found''"
proof -
  have p: "path (example_request ''/nope'') \<noteq> ''/''"
    "path (example_request ''/nope'') \<noteq> ''/status''"
    "path (example_request ''/nope'') \<noteq> ''/video_feed''"
    by (simp_all add: example_request_def)
  from unknown_path_404 [OF p, of example_repr example_imencode
         "''BaseHTTP/0.6 Python/3.11.4''" "''Tue, 03 Nov 2026 14:26:00 GMT''"] p
  show ?thesis by (simp add: example_conn_def)
qed

text \<open>
  \<^verbatim>\<open>run_server\<close> uses the plain \<^verbatim>\<open>HTTPServer\<close>, which serves one request at a time.  While
  a request for \<^verbatim>\<open>/video_feed\<close> from a client that stays connected is streaming, however
  many passes it has made without an error of the encoder, no later request has been
  handled.
\<close>

theorem stream_occupies_server:
  assumes "first_raise imencode seen = None"
  shows "\<exists>c'. serve_forever repr imencode
           ((\<lparr>path = ''/video_feed'', page_file = page, heap_seen = h, published_later = later,
              frames_seen = seen\<rparr>,
             fresh_conn server date None) # rest)
         = [Streaming c']"
proof -
  let ?c0 = "fresh_conn server date None"
  let ?head = "response_head ?c0 200
              [(''Content-type'', ''multipart/x-mixed-replace; boundary=frame''),
               (''Access-Control-Allow-Origin'', ''*'')]"
  let ?c1 = "logged [SocketWrite ?head] (?c0\<lparr>wfile := ?head\<rparr>)"
  have feed: "send_video_feed imencode seen ?c0 = video_feed_loop imencode seen ?c1"
    by (simp add: send_video_feed_def head_two)
  have "writes_left ?c1 = None" "headers_buffer ?c1 = []" by simp_all
  from video_feed_loop_stays [OF this, of imencode seen]
  obtain c' where "video_feed_loop imencode seen ?c1 = Streaming c'"
    unfolding assms by auto
  then show ?thesis by (simp add: do_GET_def feed)
qed

theorem stream_occupies_server_witness:
  "first_raise example_imencode [None, Some ''frame-1'', Some []] = None
   \<and> (\<exists>c'. serve_forever example_repr example_imencode
              [(example_request ''/video_feed'', example_conn),
               (example_request ''/status'', example_conn)]
            = [Streaming c'])"
proof -
  have a: "first_raise example_imencode [None, Some ''frame-1'', Some []] = None"
    by (simp add: example_imencode_def)
  from stream_occupies_server
         [where imencode = example_imencode and seen = "[None, Some ''frame-1'', Some []]"
            and repr = example_repr and page = FileNotFoundError
            and h = "heap_seen (example_request ''/status'')"
            and later = "[(triple 1 1 1, 101)]"
            and server = "''BaseHTTP/0.6 Python/3.11.4''"
            and date = "''Tue, 03 Nov 2026 14:26:00 GMT''"
            and rest = "[(example_request ''/status'', example_conn)]", OF a] a
  show ?thesis
    by (simp add: example_request_def example_conn_def)
qed

end
